theory Spec2Isabelle
  imports Complex_Main
begin

section \<open>The discriminators of \<^verbatim>\<open>discriminator.py\<close>\<close>

text \<open>
  The file builds three networks out of layers of the tensor library: a band discriminator
  (\<^verbatim>\<open>DiscriminatorEBEN\<close>), a full-band discriminator (\<^verbatim>\<open>DiscriminatorMelGAN\<close>) and the
  ensemble of three band discriminators and one full-band discriminator
  (\<^verbatim>\<open>DiscriminatorMultiScales\<close>). Its own code is the tables of layers in the constructors
  and the three \<^verbatim>\<open>forward\<close> loops. The layers themselves belong to the library; they are
  modelled by what the library documents: the constructor checks of \<^verbatim>\<open>Conv1d\<close>, the shape
  rule and the run-time checks of each layer, and whether a layer writes its result into a
  new tensor or into its argument. The floating-point arithmetic of a layer is a parameter
  of the model (type \<open>kernels\<close> below).
\<close>

subsection \<open>Errors\<close>

text \<open>
  The first three are the \<^verbatim>\<open>ValueError\<close>s of the constructor of \<^verbatim>\<open>Conv1d\<close>, the next six
  the \<^verbatim>\<open>RuntimeError\<close>s of a call. \<open>DanglingReference\<close> cannot happen in Python (a name
  always refers to a live object); it makes reading the store total.
\<close>

datatype error =
    GroupsNotPositive
  | InChannelsNotDivisible
  | OutChannelsNotDivisible
  | NonPositiveStride
  | NonPositiveDilation
  | ChannelMismatch
  | KernelTooLarge
  | PaddingTooLarge
  | EmptyDimension
  | DanglingReference

definition bindE :: "error + 'a \<Rightarrow> ('a \<Rightarrow> error + 'b) \<Rightarrow> error + 'b" where
  "bindE m f = (case m of Inl e \<Rightarrow> Inl e | Inr a \<Rightarrow> f a)"

subsection \<open>Tensors and the store\<close>

text \<open>
  A signal tensor has three dimensions (batch, channels, time). Its numbers are a value of
  an abstract type \<open>'v\<close>. Tensors are objects: a Python name holds a reference, and an
  in-place layer overwrites the object every holder of the reference sees. The store is
  the list of all tensors, a reference is an index into it, and a new tensor is appended.
\<close>

record 'v tensor =
  batch :: nat
  chans :: nat
  time :: nat
  vals :: 'v

type_synonym addr = nat
type_synonym 'v store = "'v tensor list"

definition alloc :: "'v store \<Rightarrow> 'v tensor \<Rightarrow> addr \<times> 'v store" where
  "alloc s t = (length s, s @ [t])"

subsection \<open>Layers\<close>

record 'w conv1d =
  in_channels :: nat
  out_channels :: nat
  kernel_size :: nat
  stride :: nat
  padding :: nat
  dilation :: nat
  groups :: nat
  weight :: 'w
  weight_normed :: bool

datatype 'w layer =
    ReflectionPad1d nat
  | Conv1d "'w conv1d"
  | LeakyReLU rat bool

datatype 'w module = Sequential "'w layer list" | Single "'w layer"

text \<open>The arithmetic of the three kinds of layer, on the numbers of a tensor.\<close>

record ('w, 'v) kernels =
  reflect :: "nat \<Rightarrow> 'v tensor \<Rightarrow> 'v"
  convolve :: "'w conv1d \<Rightarrow> 'v tensor \<Rightarrow> 'v"
  leaky :: "rat \<Rightarrow> 'v tensor \<Rightarrow> 'v"

text \<open>
  The constructor of \<^verbatim>\<open>Conv1d\<close> checks the groups, in this order. The weight \<open>w\<close> stands
  for the parameters the library draws at random.
\<close>

definition Conv1d_init ::
  "'w \<Rightarrow> nat \<Rightarrow> nat \<Rightarrow> nat \<Rightarrow> nat \<Rightarrow> nat \<Rightarrow> nat \<Rightarrow> nat \<Rightarrow> error + 'w conv1d" where
  "Conv1d_init w inc outc k st p d g =
     (if g = 0 then Inl GroupsNotPositive
      else if inc mod g \<noteq> 0 then Inl InChannelsNotDivisible
      else if outc mod g \<noteq> 0 then Inl OutChannelsNotDivisible
      else Inr \<lparr>in_channels = inc, out_channels = outc, kernel_size = k, stride = st,
                padding = p, conv1d.dilation = d, groups = g, weight = w, weight_normed = False\<rparr>)"

text \<open>Weight normalisation splits the weight into a magnitude and a direction; it cannot fail.\<close>

definition weight_norm :: "'w conv1d \<Rightarrow> 'w conv1d" where
  "weight_norm c = c\<lparr>weight_normed := True\<rparr>"

text \<open>\<^verbatim>\<open>normalized_conv1d(*args, **kwargs)\<close>, with every argument of the convolution written out.\<close>

definition normalized_conv1d ::
  "'w \<Rightarrow> nat \<Rightarrow> nat \<Rightarrow> nat \<Rightarrow> nat \<Rightarrow> nat \<Rightarrow> nat \<Rightarrow> nat \<Rightarrow> error + 'w layer" where
  "normalized_conv1d w inc outc k st p d g =
     bindE (Conv1d_init w inc outc k st p d g) (\<lambda>c. Inr (Conv1d (weight_norm c)))"

text \<open>The temporal length a convolution gives on an input of length \<open>n\<close>.\<close>

definition conv_out_len :: "'w conv1d \<Rightarrow> nat \<Rightarrow> nat" where
  "conv_out_len c n =
     (n + 2 * padding c - conv1d.dilation c * (kernel_size c - 1) - 1) div stride c + 1"

text \<open>
  The run-time checks of a layer and the shape (batch, channels, time) of its result.
  Reflection padding wants non-empty channels and time and a padding smaller than the
  input; a convolution wants its declared input channels and a padded input no shorter
  than the dilated kernel.
\<close>

fun layer_shape :: "'w layer \<Rightarrow> nat \<times> nat \<times> nat \<Rightarrow> error + nat \<times> nat \<times> nat" where
  "layer_shape (ReflectionPad1d p) (b, c, n) =
     (if c = 0 \<or> n = 0 then Inl EmptyDimension
      else if n \<le> p then Inl PaddingTooLarge
      else Inr (b, c, n + 2 * p))"
| "layer_shape (Conv1d cv) (b, c, n) =
     (if stride cv = 0 then Inl NonPositiveStride
      else if conv1d.dilation cv = 0 then Inl NonPositiveDilation
      else if c \<noteq> in_channels cv then Inl ChannelMismatch
      else if n + 2 * padding cv < conv1d.dilation cv * (kernel_size cv - 1) + 1
        then Inl KernelTooLarge
      else Inr (b, out_channels cv, conv_out_len cv n))"
| "layer_shape (LeakyReLU slope inplace) sh = Inr sh"

text \<open>The numbers of the result.\<close>

fun layer_vals :: "('w, 'v) kernels \<Rightarrow> 'w layer \<Rightarrow> 'v tensor \<Rightarrow> 'v" where
  "layer_vals K (ReflectionPad1d p) t = reflect K p t"
| "layer_vals K (Conv1d cv) t = convolve K cv t"
| "layer_vals K (LeakyReLU slope inplace) t = leaky K slope t"

definition shape :: "'v tensor \<Rightarrow> nat \<times> nat \<times> nat" where
  "shape t = (batch t, chans t, time t)"

text \<open>What a layer computes from a tensor.\<close>

definition layer_apply :: "('w, 'v) kernels \<Rightarrow> 'w layer \<Rightarrow> 'v tensor \<Rightarrow> error + 'v tensor" where
  "layer_apply K l t =
     bindE (layer_shape l (shape t))
       (\<lambda>(b, c, n). Inr \<lparr>batch = b, chans = c, time = n, vals = layer_vals K l t\<rparr>)"

text \<open>Only an in-place activation writes into its argument.\<close>

fun in_place :: "'w layer \<Rightarrow> bool" where
  "in_place (LeakyReLU slope inplace) = inplace"
| "in_place l = False"

text \<open>Calling a layer on a reference: the result is a new tensor, or the argument overwritten.\<close>

definition layer_forward ::
  "('w, 'v) kernels \<Rightarrow> 'w layer \<Rightarrow> addr \<Rightarrow> 'v store \<Rightarrow> error + (addr \<times> 'v store)" where
  "layer_forward K l x s =
     (if length s \<le> x then Inl DanglingReference
      else bindE (layer_apply K l (s ! x))
             (\<lambda>t. Inr (if in_place l then (x, s[x := t]) else alloc s t)))"

fun Sequential_forward ::
  "('w, 'v) kernels \<Rightarrow> 'w layer list \<Rightarrow> addr \<Rightarrow> 'v store \<Rightarrow> error + (addr \<times> 'v store)" where
  "Sequential_forward K [] x s = Inr (x, s)"
| "Sequential_forward K (l # ls) x s =
     bindE (layer_forward K l x s) (\<lambda>(y, s'). Sequential_forward K ls y s')"

fun module_forward ::
  "('w, 'v) kernels \<Rightarrow> 'w module \<Rightarrow> addr \<Rightarrow> 'v store \<Rightarrow> error + (addr \<times> 'v store)" where
  "module_forward K (Sequential ls) x s = Sequential_forward K ls x s"
| "module_forward K (Single l) x s = layer_forward K l x s"

subsection \<open>The band discriminator\<close>

record 'w DiscriminatorEBEN =
  dilation :: nat
  discriminator :: "'w module list"

text \<open>
  \<^verbatim>\<open>DiscriminatorEBEN.__init__(dilation, q)\<close>. The list of blocks is built front to back, so
  the first convolution whose constructor raises ends the construction. \<open>w k\<close> is the
  initial weight of convolution \<open>k\<close>. The number of bands \<open>q\<close>, like every channel count
  and dimension, is a natural number. Python's default arguments (dilation 1, \<open>q = 4\<close>) are
  passed explicitly.
\<close>

definition DiscriminatorEBEN_init ::
  "(nat \<Rightarrow> 'w) \<Rightarrow> nat \<Rightarrow> nat \<Rightarrow> error + 'w DiscriminatorEBEN" where
  "DiscriminatorEBEN_init w dila q =
     bindE (normalized_conv1d (w 0) q 80 3 1 1 dila q) (\<lambda>c0.
     bindE (normalized_conv1d (w 1) 80 160 7 2 3 dila q) (\<lambda>c1.
     bindE (normalized_conv1d (w 2) 160 320 7 2 3 dila q) (\<lambda>c2.
     bindE (normalized_conv1d (w 3) 320 480 7 2 3 dila q) (\<lambda>c3.
     bindE (normalized_conv1d (w 4) 480 640 7 2 3 dila q) (\<lambda>c4.
     bindE (normalized_conv1d (w 5) 640 960 7 2 3 dila q) (\<lambda>c5.
     bindE (normalized_conv1d (w 6) 960 960 5 1 2 dila q) (\<lambda>c6.
     bindE (normalized_conv1d (w 7) 960 1 3 1 1 1 1) (\<lambda>c7.
     Inr \<lparr>DiscriminatorEBEN.dilation = dila,
          DiscriminatorEBEN.discriminator =
            [Sequential [ReflectionPad1d 1, c0, LeakyReLU 0.2 True],
             Sequential [c1, LeakyReLU 0.2 True],
             Sequential [c2, LeakyReLU 0.2 True],
             Sequential [c3, LeakyReLU 0.2 True],
             Sequential [c4, LeakyReLU 0.2 True],
             Sequential [c5, LeakyReLU 0.2 True],
             Sequential [c6, LeakyReLU 0.2 True],
             Single c7]\<rparr>))))))))"

text \<open>
  The loop of both \<^verbatim>\<open>forward\<close> methods: each module is called on the last embedding and
  its result is appended.
\<close>

fun forward_modules ::
  "('w, 'v) kernels \<Rightarrow> 'w module list \<Rightarrow> addr list \<Rightarrow> 'v store \<Rightarrow>
     error + (addr list \<times> 'v store)" where
  "forward_modules K [] embeddings s = Inr (embeddings, s)"
| "forward_modules K (m # ms) embeddings s =
     bindE (module_forward K m (last embeddings) s)
       (\<lambda>(y, s'). forward_modules K ms (embeddings @ [y]) s')"

definition DiscriminatorEBEN_forward ::
  "('w, 'v) kernels \<Rightarrow> 'w DiscriminatorEBEN \<Rightarrow> addr \<Rightarrow> 'v store \<Rightarrow>
     error + (addr list \<times> 'v store)" where
  "DiscriminatorEBEN_forward K D bands s = forward_modules K (DiscriminatorEBEN.discriminator D) [bands] s"

subsection \<open>The full-band discriminator\<close>

record 'w DiscriminatorMelGAN =
  discriminator :: "'w module list"

definition DiscriminatorMelGAN_init :: "(nat \<Rightarrow> 'w) \<Rightarrow> error + 'w DiscriminatorMelGAN" where
  "DiscriminatorMelGAN_init w =
     bindE (normalized_conv1d (w 0) 1 16 15 1 0 1 1) (\<lambda>c0.
     bindE (normalized_conv1d (w 1) 16 64 41 4 20 1 4) (\<lambda>c1.
     bindE (normalized_conv1d (w 2) 64 256 41 4 20 1 4) (\<lambda>c2.
     bindE (normalized_conv1d (w 3) 256 1024 41 4 20 1 4) (\<lambda>c3.
     bindE (normalized_conv1d (w 4) 1024 1024 41 4 20 1 4) (\<lambda>c4.
     bindE (normalized_conv1d (w 5) 1024 1024 5 1 2 1 1) (\<lambda>c5.
     bindE (normalized_conv1d (w 6) 1024 1 3 1 1 1 1) (\<lambda>c6.
     Inr \<lparr>DiscriminatorMelGAN.discriminator =
            [Sequential [ReflectionPad1d 7, c0, LeakyReLU 0.2 True],
             Sequential [c1, LeakyReLU 0.2 True],
             Sequential [c2, LeakyReLU 0.2 True],
             Sequential [c3, LeakyReLU 0.2 True],
             Sequential [c4, LeakyReLU 0.2 True],
             Sequential [c5, LeakyReLU 0.2 True],
             Single c6]\<rparr>)))))))"

definition DiscriminatorMelGAN_forward ::
  "('w, 'v) kernels \<Rightarrow> 'w DiscriminatorMelGAN \<Rightarrow> addr \<Rightarrow> 'v store \<Rightarrow>
     error + (addr list \<times> 'v store)" where
  "DiscriminatorMelGAN_forward K G audio s =
     forward_modules K (DiscriminatorMelGAN.discriminator G) [audio] s"

subsection \<open>The ensemble\<close>

record 'w DiscriminatorMultiScales =
  q :: nat
  pqmf_discriminators :: "'w DiscriminatorEBEN list"
  melgan_discriminator :: "'w DiscriminatorMelGAN"

text \<open>
  The loop \<^verbatim>\<open>for dila in [1, 2, 3]\<close> of the constructor; \<open>wb dila\<close> are the initial weights
  of the band discriminator of dilation \<open>dila\<close>.
\<close>

fun init_pqmf ::
  "(nat \<Rightarrow> nat \<Rightarrow> 'w) \<Rightarrow> nat \<Rightarrow> nat list \<Rightarrow> 'w DiscriminatorEBEN list \<Rightarrow>
     error + 'w DiscriminatorEBEN list" where
  "init_pqmf wb Q [] ds = Inr ds"
| "init_pqmf wb Q (dila # dilas) ds =
     bindE (DiscriminatorEBEN_init (wb dila) dila Q) (\<lambda>D. init_pqmf wb Q dilas (ds @ [D]))"

definition DiscriminatorMultiScales_init ::
  "(nat \<Rightarrow> nat \<Rightarrow> 'w) \<Rightarrow> (nat \<Rightarrow> 'w) \<Rightarrow> nat \<Rightarrow> error + 'w DiscriminatorMultiScales" where
  "DiscriminatorMultiScales_init wb wm Q =
     bindE (init_pqmf wb Q [1, 2, 3] []) (\<lambda>ds.
     bindE (DiscriminatorMelGAN_init wm) (\<lambda>G.
     Inr \<lparr>q = Q, pqmf_discriminators = ds, melgan_discriminator = G\<rparr>))"

text \<open>The loop \<^verbatim>\<open>for dis in self.pqmf_discriminators\<close> of \<^verbatim>\<open>forward\<close>.\<close>

fun forward_pqmf ::
  "('w, 'v) kernels \<Rightarrow> 'w DiscriminatorEBEN list \<Rightarrow> addr \<Rightarrow> addr list list \<Rightarrow> 'v store \<Rightarrow>
     error + (addr list list \<times> 'v store)" where
  "forward_pqmf K [] bands embeddings s = Inr (embeddings, s)"
| "forward_pqmf K (dis # rest) bands embeddings s =
     bindE (DiscriminatorEBEN_forward K dis bands s)
       (\<lambda>(e, s'). forward_pqmf K rest bands (embeddings @ [e]) s')"

definition DiscriminatorMultiScales_forward ::
  "('w, 'v) kernels \<Rightarrow> 'w DiscriminatorMultiScales \<Rightarrow> addr \<Rightarrow> addr \<Rightarrow> 'v store \<Rightarrow>
     error + (addr list list \<times> 'v store)" where
  "DiscriminatorMultiScales_forward K M bands audio s =
     bindE (forward_pqmf K (pqmf_discriminators M) bands [] s) (\<lambda>(embeddings, s').
     bindE (DiscriminatorMelGAN_forward K (melgan_discriminator M) audio s') (\<lambda>(e, s'').
     Inr (embeddings @ [e], s'')))"

subsection \<open>What a call computes, without the store\<close>

text \<open>
  The tensors a stack of modules produces from a tensor, layer after layer. The theorems
  below relate the calls on references to these functions.
\<close>

fun layers_apply :: "('w, 'v) kernels \<Rightarrow> 'w layer list \<Rightarrow> 'v tensor \<Rightarrow> error + 'v tensor" where
  "layers_apply K [] t = Inr t"
| "layers_apply K (l # ls) t = bindE (layer_apply K l t) (layers_apply K ls)"

fun module_apply :: "('w, 'v) kernels \<Rightarrow> 'w module \<Rightarrow> 'v tensor \<Rightarrow> error + 'v tensor" where
  "module_apply K (Sequential ls) t = layers_apply K ls t"
| "module_apply K (Single l) t = layer_apply K l t"

fun modules_apply ::
  "('w, 'v) kernels \<Rightarrow> 'w module list \<Rightarrow> 'v tensor \<Rightarrow> error + 'v tensor list" where
  "modules_apply K [] t = Inr []"
| "modules_apply K (m # ms) t =
     bindE (module_apply K m t) (\<lambda>u. bindE (modules_apply K ms u) (\<lambda>us. Inr (u # us)))"

text \<open>The same on shapes alone.\<close>

fun layers_shape :: "'w layer list \<Rightarrow> nat \<times> nat \<times> nat \<Rightarrow> error + nat \<times> nat \<times> nat" where
  "layers_shape [] sh = Inr sh"
| "layers_shape (l # ls) sh = bindE (layer_shape l sh) (layers_shape ls)"

fun module_shape :: "'w module \<Rightarrow> nat \<times> nat \<times> nat \<Rightarrow> error + nat \<times> nat \<times> nat" where
  "module_shape (Sequential ls) sh = layers_shape ls sh"
| "module_shape (Single l) sh = layer_shape l sh"

fun modules_shape ::
  "'w module list \<Rightarrow> nat \<times> nat \<times> nat \<Rightarrow> error + (nat \<times> nat \<times> nat) list" where
  "modules_shape [] sh = Inr []"
| "modules_shape (m # ms) sh =
     bindE (module_shape m sh) (\<lambda>u. bindE (modules_shape ms u) (\<lambda>us. Inr (u # us)))"

text \<open>A module is fresh when the first layer its argument meets makes a new tensor.\<close>

fun fresh :: "'w module \<Rightarrow> bool" where
  "fresh (Sequential []) = False"
| "fresh (Sequential (l # ls)) = (\<not> in_place l)"
| "fresh (Single l) = (\<not> in_place l)"

subsection \<open>Reading results\<close>

text \<open>The tensors a list of references holds in a store.\<close>

definition deref :: "'v store \<Rightarrow> addr list \<Rightarrow> 'v tensor list" where
  "deref s E = map (\<lambda>a. s ! a) E"

text \<open>The outcome of a call of a discriminator, as tensors: what the caller can observe.\<close>

definition outcome :: "error + (addr list \<times> 'v store) \<Rightarrow> error + 'v tensor list" where
  "outcome r = (case r of Inl e \<Rightarrow> Inl e | Inr (E, s) \<Rightarrow> Inr (deref s E))"

definition outcomes :: "error + (addr list list \<times> 'v store) \<Rightarrow> error + 'v tensor list list" where
  "outcomes r = (case r of Inl e \<Rightarrow> Inl e | Inr (E, s) \<Rightarrow> Inr (map (deref s) E))"

text \<open>The shapes of an outcome, and the shape and temporal length of the last tensor.\<close>

definition shapes :: "error + 'v tensor list \<Rightarrow> error + (nat \<times> nat \<times> nat) list" where
  "shapes r = map_sum id (map shape) r"

definition final_time :: "error + 'v tensor list \<Rightarrow> error + nat" where
  "final_time r = map_sum id (\<lambda>ts. time (last ts)) r"

definition all_shapes ::
  "error + 'v tensor list list \<Rightarrow> error + (nat \<times> nat \<times> nat) list list" where
  "all_shapes r = map_sum id (map (map shape)) r"

definition final_shapes ::
  "error + 'v tensor list list \<Rightarrow> error + (nat \<times> nat \<times> nat) list" where
  "final_shapes r = map_sum id (map (\<lambda>ts. shape (last ts))) r"

text \<open>Kernels, weights and signals that carry shapes only, for concrete runs.\<close>

definition unit_weights :: "nat \<Rightarrow> unit" where
  "unit_weights k = ()"

definition unit_band_weights :: "nat \<Rightarrow> nat \<Rightarrow> unit" where
  "unit_band_weights dila k = ()"

definition shape_only :: "(unit, unit) kernels" where
  "shape_only = \<lparr>reflect = (\<lambda>p t. ()), convolve = (\<lambda>c t. ()), leaky = (\<lambda>a t. ())\<rparr>"

definition signal :: "nat \<Rightarrow> nat \<Rightarrow> nat \<Rightarrow> unit tensor" where
  "signal b c l = \<lparr>batch = b, chans = c, time = l, vals = ()\<rparr>"

section \<open>Calls on references compute what the layers compute\<close>

lemma bindE_simps [simp]: "bindE (Inl e) f = Inl e" "bindE (Inr a) f = f a"
  by (simp_all add: bindE_def)

lemma bindE_eq_Inr: "bindE m f = Inr r \<longleftrightarrow> (\<exists>a. m = Inr a \<and> f a = Inr r)"
  by (cases m) simp_all

lemma layer_forward_fresh:
  "x < length s \<Longrightarrow> \<not> in_place l \<Longrightarrow>
   layer_forward K l x s =
     (case layer_apply K l (s ! x) of Inl e \<Rightarrow> Inl e | Inr t \<Rightarrow> Inr (length s, s @ [t]))"
  by (simp add: layer_forward_def alloc_def split: sum.splits)

lemma layer_forward_in_place:
  "x < length s \<Longrightarrow> in_place l \<Longrightarrow>
   layer_forward K l x s =
     (case layer_apply K l (s ! x) of Inl e \<Rightarrow> Inl e | Inr t \<Rightarrow> Inr (x, s[x := t]))"
  by (simp add: layer_forward_def split: sum.splits)

text \<open>A layer called on a reference at or above \<open>n\<close> leaves the store below \<open>n\<close> alone.\<close>

lemma layer_forward_frame:
  assumes "n \<le> x" "x < length s"
  shows "case layer_apply K l (s ! x) of
           Inl e \<Rightarrow> layer_forward K l x s = Inl e
         | Inr t \<Rightarrow> \<exists>y s'. layer_forward K l x s = Inr (y, s') \<and> n \<le> y \<and> y < length s' \<and>
                     s' ! y = t \<and> take n s' = take n s \<and> length s \<le> length s'"
proof (cases "in_place l")
  case True
  then show ?thesis using assms
    by (simp add: layer_forward_in_place split: sum.splits)
next
  case False
  then show ?thesis using assms
    by (simp add: layer_forward_fresh split: sum.splits)
qed

lemma Sequential_forward_frame:
  "n \<le> x \<Longrightarrow> x < length s \<Longrightarrow>
   (case layers_apply K ls (s ! x) of
      Inl e \<Rightarrow> Sequential_forward K ls x s = Inl e
    | Inr t \<Rightarrow> \<exists>y s'. Sequential_forward K ls x s = Inr (y, s') \<and> n \<le> y \<and> y < length s' \<and>
                s' ! y = t \<and> take n s' = take n s \<and> length s \<le> length s')"
proof (induction ls arbitrary: x s)
  case Nil
  then show ?case by simp
next
  case (Cons l ls)
  show ?case
  proof (cases "layer_apply K l (s ! x)")
    case (Inl e)
    with layer_forward_frame [OF Cons.prems, of K l] show ?thesis by simp
  next
    case (Inr t)
    with layer_forward_frame [OF Cons.prems, of K l]
    obtain y s' where st: "layer_forward K l x s = Inr (y, s')" "n \<le> y" "y < length s'"
      "s' ! y = t" "take n s' = take n s" "length s \<le> length s'"
      by auto
    from Cons.IH [OF st(2,3)] st Inr show ?thesis
      by (auto split: sum.splits)
  qed
qed


lemma module_forward_frame:
  assumes "fresh m" "x < length s"
  shows "case module_apply K m (s ! x) of
           Inl e \<Rightarrow> module_forward K m x s = Inl e
         | Inr t \<Rightarrow> \<exists>y s'. module_forward K m x s = Inr (y, s') \<and> length s \<le> y \<and>
                     y < length s' \<and> s' ! y = t \<and> take (length s) s' = s"
proof (cases m)
  case (Single l)
  with assms show ?thesis
    by (simp add: layer_forward_fresh split: sum.splits)
next
  case (Sequential ls)
  with assms obtain l ls' where ls: "ls = l # ls'" and l: "\<not> in_place l"
    by (cases ls) auto
  show ?thesis
  proof (cases "layer_apply K l (s ! x)")
    case (Inl e)
    with Sequential ls l assms show ?thesis
      by (simp add: layer_forward_fresh)
  next
    case (Inr t)
    have "length s \<le> length s" "length s < length (s @ [t])" by simp_all
    from Sequential_forward_frame [OF this, of K ls'] Sequential ls l assms Inr
    show ?thesis
      by (auto simp: layer_forward_fresh split: sum.splits)
  qed
qed

lemma nth_of_take: "take n s' = s \<Longrightarrow> a < length s \<Longrightarrow> s' ! a = s ! a"
  by (metis nth_take length_take min_less_iff_conj)

lemma deref_of_take:
  "take n s' = s \<Longrightarrow> list_all (\<lambda>a. a < length s) E \<Longrightarrow> deref s' E = deref s E"
  by (induction E) (auto simp: deref_def nth_of_take)

lemma forward_modules_frame:
  "list_all fresh ms \<Longrightarrow> embs \<noteq> [] \<Longrightarrow> list_all (\<lambda>a. a < length s) embs \<Longrightarrow>
   (case modules_apply K ms (s ! last embs) of
      Inl e \<Rightarrow> forward_modules K ms embs s = Inl e
    | Inr ts \<Rightarrow> \<exists>ys s'. forward_modules K ms embs s = Inr (embs @ ys, s') \<and>
                deref s' (embs @ ys) = deref s embs @ ts \<and>
                take (length s) s' = s \<and>
                list_all (\<lambda>a. length s \<le> a \<and> a < length s') ys)"
proof (induction ms arbitrary: embs s)
  case Nil
  then show ?case by simp
next
  case (Cons m ms)
  from Cons.prems have lst: "last embs < length s"
    by (metis last_in_set list_all_iff)
  from Cons.prems have fm: "fresh m" and fms: "list_all fresh ms" by simp_all
  show ?case
  proof (cases "module_apply K m (s ! last embs)")
    case (Inl e)
    with module_forward_frame [OF fm lst, of K] show ?thesis by simp
  next
    case (Inr u)
    with module_forward_frame [OF fm lst, of K]
    obtain y s1 where st: "module_forward K m (last embs) s = Inr (y, s1)" "length s \<le> y"
      "y < length s1" "s1 ! y = u" "take (length s) s1 = s"
      by auto
    have len: "length s \<le> length s1" using st(2,3) by simp
    have all1: "list_all (\<lambda>a. a < length s1) (embs @ [y])"
      using Cons.prems(3) st(3) len by (auto simp: list_all_iff)
    have d1: "deref s1 (embs @ [y]) = deref s embs @ [u]"
      using deref_of_take [OF st(5) Cons.prems(3)] st(4) by (simp add: deref_def)
    show ?thesis
    proof (cases "modules_apply K ms u")
      case (Inl e)
      with Cons.IH [OF fms _ all1] st Inr show ?thesis by simp
    next
      case Inr2: (Inr us)
      with Cons.IH [OF fms _ all1] st
      obtain ys s' where r: "forward_modules K ms (embs @ [y]) s1 = Inr ((embs @ [y]) @ ys, s')"
        "deref s' ((embs @ [y]) @ ys) = deref s1 (embs @ [y]) @ us"
        "take (length s1) s' = s1" "list_all (\<lambda>a. length s1 \<le> a \<and> a < length s') ys"
        by auto
      have tk: "take (length s) s' = s"
        by (metis r(3) st(5) len min.absorb1 take_take)
      have len2: "length s1 \<le> length s'"
        by (metis r(3) length_take min.cobounded1 min.commute)
      have "list_all (\<lambda>a. length s \<le> a \<and> a < length s') (y # ys)"
        using r(4) st(2,3) len len2 by (auto simp: list_all_iff)
      with r tk d1 st Inr Inr2 show ?thesis
        by auto
    qed
  qed
qed

section \<open>Shapes\<close>

lemma layer_apply_shape: "map_sum id shape (layer_apply K l t) = layer_shape l (shape t)"
  by (cases "layer_shape l (shape t)") (auto simp: layer_apply_def shape_def)

lemma layers_apply_shape: "map_sum id shape (layers_apply K ls t) = layers_shape ls (shape t)"
proof (induction ls arbitrary: t)
  case Nil
  then show ?case by simp
next
  case (Cons l ls)
  show ?case
  proof (cases "layer_apply K l t")
    case (Inl e)
    with layer_apply_shape [of K l t] show ?thesis by (cases "layer_shape l (shape t)") auto
  next
    case (Inr u)
    with layer_apply_shape [of K l t] Cons.IH [of u, symmetric] show ?thesis
      by (cases "layer_shape l (shape t)") auto
  qed
qed

lemma module_apply_shape: "map_sum id shape (module_apply K m t) = module_shape m (shape t)"
  by (cases m) (simp_all add: layers_apply_shape layer_apply_shape)

lemma modules_apply_shape:
  "map_sum id (map shape) (modules_apply K ms t) = modules_shape ms (shape t)"
proof (induction ms arbitrary: t)
  case Nil
  then show ?case by simp
next
  case (Cons m ms)
  show ?case
  proof (cases "module_apply K m t")
    case (Inl e)
    with module_apply_shape [of K m t] show ?thesis by (cases "module_shape m (shape t)") auto
  next
    case (Inr u)
    with module_apply_shape [of K m t] Cons.IH [of u, symmetric] show ?thesis
      by (cases "module_shape m (shape t)"; cases "modules_apply K ms u") auto
  qed
qed

lemma normalized_conv1d_eq:
  "normalized_conv1d w i o' k st p d g =
     (if g = 0 then Inl GroupsNotPositive
      else if i mod g \<noteq> 0 then Inl InChannelsNotDivisible
      else if o' mod g \<noteq> 0 then Inl OutChannelsNotDivisible
      else Inr (Conv1d \<lparr>in_channels = i, out_channels = o', kernel_size = k, stride = st,
                padding = p, conv1d.dilation = d, groups = g, weight = w, weight_normed = True\<rparr>))"
  by (simp add: normalized_conv1d_def Conv1d_init_def weight_norm_def)

lemma dvd80: "(Q::nat) dvd 80 \<Longrightarrow> Q dvd 160 \<and> Q dvd 320 \<and> Q dvd 480 \<and> Q dvd 640 \<and> Q dvd 960"
proof -
  assume a: "Q dvd 80"
  have "(80::nat) dvd 160" "(80::nat) dvd 320" "(80::nat) dvd 480" "(80::nat) dvd 640" "(80::nat) dvd 960"
    by simp_all
  with a show ?thesis using dvd_trans by blast
qed

lemma DiscriminatorEBEN_init_eq:
  "DiscriminatorEBEN_init w d Q =
     (if Q = 0 then Inl GroupsNotPositive
      else if \<not> Q dvd 80 then Inl OutChannelsNotDivisible
      else Inr \<lparr>DiscriminatorEBEN.dilation = d,
          DiscriminatorEBEN.discriminator =
            [Sequential [ReflectionPad1d 1,
               Conv1d \<lparr>in_channels = Q, out_channels = 80, kernel_size = 3, stride = 1,
                 padding = 1, conv1d.dilation = d, groups = Q, weight = w 0, weight_normed = True\<rparr>,
               LeakyReLU 0.2 True],
             Sequential [
               Conv1d \<lparr>in_channels = 80, out_channels = 160, kernel_size = 7, stride = 2,
                 padding = 3, conv1d.dilation = d, groups = Q, weight = w 1, weight_normed = True\<rparr>,
               LeakyReLU 0.2 True],
             Sequential [
               Conv1d \<lparr>in_channels = 160, out_channels = 320, kernel_size = 7, stride = 2,
                 padding = 3, conv1d.dilation = d, groups = Q, weight = w 2, weight_normed = True\<rparr>,
               LeakyReLU 0.2 True],
             Sequential [
               Conv1d \<lparr>in_channels = 320, out_channels = 480, kernel_size = 7, stride = 2,
                 padding = 3, conv1d.dilation = d, groups = Q, weight = w 3, weight_normed = True\<rparr>,
               LeakyReLU 0.2 True],
             Sequential [
               Conv1d \<lparr>in_channels = 480, out_channels = 640, kernel_size = 7, stride = 2,
                 padding = 3, conv1d.dilation = d, groups = Q, weight = w 4, weight_normed = True\<rparr>,
               LeakyReLU 0.2 True],
             Sequential [
               Conv1d \<lparr>in_channels = 640, out_channels = 960, kernel_size = 7, stride = 2,
                 padding = 3, conv1d.dilation = d, groups = Q, weight = w 5, weight_normed = True\<rparr>,
               LeakyReLU 0.2 True],
             Sequential [
               Conv1d \<lparr>in_channels = 960, out_channels = 960, kernel_size = 5, stride = 1,
                 padding = 2, conv1d.dilation = d, groups = Q, weight = w 6, weight_normed = True\<rparr>,
               LeakyReLU 0.2 True],
             Single (
               Conv1d \<lparr>in_channels = 960, out_channels = 1, kernel_size = 3, stride = 1,
                 padding = 1, conv1d.dilation = 1, groups = 1, weight = w 7, weight_normed = True\<rparr>)]\<rparr>)"
proof (cases "Q = 0")
  case True
  then show ?thesis by (simp add: DiscriminatorEBEN_init_def normalized_conv1d_eq)
next
  case False
  show ?thesis
  proof (cases "Q dvd 80")
    case False
    with \<open>Q \<noteq> 0\<close> show ?thesis
      by (simp add: DiscriminatorEBEN_init_def normalized_conv1d_eq mod_eq_0_iff_dvd)
  next
    case True
    with dvd80 [OF True] \<open>Q \<noteq> 0\<close> show ?thesis
      by (simp add: DiscriminatorEBEN_init_def normalized_conv1d_eq mod_eq_0_iff_dvd)
  qed
qed

lemma modules_shape_Cons_iff:
  "modules_shape (m # ms) sh = Inr shs \<longleftrightarrow>
     (\<exists>u us. module_shape m sh = Inr u \<and> modules_shape ms u = Inr us \<and> shs = u # us)"
  by (cases "module_shape m sh"; cases shs) (auto simp: bindE_eq_Inr)

lemma modules_shape_nth:
  "modules_shape ms sh = Inr shs \<Longrightarrow> i < length ms \<Longrightarrow>
   length shs = length ms \<and> module_shape (ms ! i) ((sh # shs) ! i) = Inr (shs ! i)"
proof (induction ms arbitrary: sh shs i)
  case Nil
  then show ?case by simp
next
  case (Cons m ms)
  from Cons.prems(1) obtain u us where u: "module_shape m sh = Inr u"
    "modules_shape ms u = Inr us" "shs = u # us"
    unfolding modules_shape_Cons_iff by blast
  show ?case
  proof (cases i)
    case 0
    show ?thesis
    proof (cases ms)
      case Nil
      with u 0 show ?thesis by simp
    next
      case (Cons m' ms')
      with Cons.IH [OF u(2), of 0] u 0 show ?thesis by simp
    qed
  next
    case (Suc j)
    with Cons.IH [OF u(2), of j] Cons.prems(2) u show ?thesis by simp
  qed
qed

lemma conv_block_iff:
  "module_shape (Sequential [Conv1d \<lparr>in_channels = i, out_channels = o', kernel_size = k, stride = st,
       padding = p, conv1d.dilation = d, groups = g, weight = w, weight_normed = wn\<rparr>, LeakyReLU a ip]) (b, c, n) = Inr u \<longleftrightarrow>
     st \<noteq> 0 \<and> d \<noteq> 0 \<and> c = i \<and> d * (k - 1) + 1 \<le> n + 2 * p \<and>
     u = (b, o', (n + 2 * p - d * (k - 1) - 1) div st + 1)"
  by (auto simp: conv_out_len_def bindE_eq_Inr)

lemma pad_conv_block_iff:
  "module_shape (Sequential [ReflectionPad1d r, Conv1d \<lparr>in_channels = i, out_channels = o', kernel_size = k, stride = st,
       padding = p, conv1d.dilation = d, groups = g, weight = w, weight_normed = wn\<rparr>, LeakyReLU a ip]) (b, c, n) = Inr u \<longleftrightarrow>
     c \<noteq> 0 \<and> r < n \<and>
     st \<noteq> 0 \<and> d \<noteq> 0 \<and> c = i \<and> d * (k - 1) + 1 \<le> n + 2 * r + 2 * p \<and>
     u = (b, o', (n + 2 * r + 2 * p - d * (k - 1) - 1) div st + 1)"
  by (auto simp: conv_out_len_def bindE_eq_Inr)

lemma single_conv_iff:
  "module_shape (Single (Conv1d \<lparr>in_channels = i, out_channels = o', kernel_size = k, stride = st,
       padding = p, conv1d.dilation = d, groups = g, weight = w, weight_normed = wn\<rparr>)) (b, c, n) = Inr u \<longleftrightarrow>
     st \<noteq> 0 \<and> d \<noteq> 0 \<and> c = i \<and> d * (k - 1) + 1 \<le> n + 2 * p \<and>
     u = (b, o', (n + 2 * p - d * (k - 1) - 1) div st + 1)"
  by (auto simp: conv_out_len_def)

lemmas block_iffs = conv_block_iff pad_conv_block_iff single_conv_iff

lemma DiscriminatorEBEN_init_Inr:
  assumes "DiscriminatorEBEN_init w d Q = Inr D"
  shows "0 < Q" "Q dvd 80" "DiscriminatorEBEN.dilation D = d"
    "DiscriminatorEBEN.discriminator D =
            [Sequential [ReflectionPad1d 1,
               Conv1d \<lparr>in_channels = Q, out_channels = 80, kernel_size = 3, stride = 1,
                 padding = 1, conv1d.dilation = d, groups = Q, weight = w 0, weight_normed = True\<rparr>,
               LeakyReLU 0.2 True],
             Sequential [
               Conv1d \<lparr>in_channels = 80, out_channels = 160, kernel_size = 7, stride = 2,
                 padding = 3, conv1d.dilation = d, groups = Q, weight = w 1, weight_normed = True\<rparr>,
               LeakyReLU 0.2 True],
             Sequential [
               Conv1d \<lparr>in_channels = 160, out_channels = 320, kernel_size = 7, stride = 2,
                 padding = 3, conv1d.dilation = d, groups = Q, weight = w 2, weight_normed = True\<rparr>,
               LeakyReLU 0.2 True],
             Sequential [
               Conv1d \<lparr>in_channels = 320, out_channels = 480, kernel_size = 7, stride = 2,
                 padding = 3, conv1d.dilation = d, groups = Q, weight = w 3, weight_normed = True\<rparr>,
               LeakyReLU 0.2 True],
             Sequential [
               Conv1d \<lparr>in_channels = 480, out_channels = 640, kernel_size = 7, stride = 2,
                 padding = 3, conv1d.dilation = d, groups = Q, weight = w 4, weight_normed = True\<rparr>,
               LeakyReLU 0.2 True],
             Sequential [
               Conv1d \<lparr>in_channels = 640, out_channels = 960, kernel_size = 7, stride = 2,
                 padding = 3, conv1d.dilation = d, groups = Q, weight = w 5, weight_normed = True\<rparr>,
               LeakyReLU 0.2 True],
             Sequential [
               Conv1d \<lparr>in_channels = 960, out_channels = 960, kernel_size = 5, stride = 1,
                 padding = 2, conv1d.dilation = d, groups = Q, weight = w 6, weight_normed = True\<rparr>,
               LeakyReLU 0.2 True],
             Single (
               Conv1d \<lparr>in_channels = 960, out_channels = 1, kernel_size = 3, stride = 1,
                 padding = 1, conv1d.dilation = 1, groups = 1, weight = w 7, weight_normed = True\<rparr>)]"
  using assms by (auto simp add: DiscriminatorEBEN_init_eq split: if_splits)


lemma modules_shape_ConsI:
  "module_shape m sh = Inr u \<Longrightarrow> modules_shape ms u = Inr us \<Longrightarrow>
   modules_shape (m # ms) sh = Inr (u # us)"
  by simp

lemma EBEN_shapes_valid:
  assumes init: "DiscriminatorEBEN_init w d Q = Inr D"
    and v: "c = Q" "1 \<le> d" "2 \<le> n" "316 * d \<le> n + 317"
  shows "modules_shape (DiscriminatorEBEN.discriminator D) (b, c, n) =
     Inr [(b, 80, n + 4 - 2 * d), (b, 160, (n + 11 - 8 * d) div 2),
          (b, 320, (n + 25 - 20 * d) div 4), (b, 480, (n + 53 - 44 * d) div 8),
          (b, 640, (n + 109 - 92 * d) div 16), (b, 960, (n + 221 - 188 * d) div 32),
          (b, 960, (n + 221 - 188 * d) div 32 + 4 - 4 * d),
          (b, 1, (n + 221 - 188 * d) div 32 + 4 - 4 * d)]"
proof -
  note D = DiscriminatorEBEN_init_Inr [OF init]
  from v D(1) show ?thesis
    apply (subst D(4))
    apply (rule modules_shape_ConsI)
    subgoal by (simp only: block_iffs) (simp; arith)
    apply (rule modules_shape_ConsI)
    subgoal by (simp only: block_iffs) (simp; arith)
    apply (rule modules_shape_ConsI)
    subgoal by (simp only: block_iffs) (simp; arith)
    apply (rule modules_shape_ConsI)
    subgoal by (simp only: block_iffs) (simp; arith)
    apply (rule modules_shape_ConsI)
    subgoal by (simp only: block_iffs) (simp; arith)
    apply (rule modules_shape_ConsI)
    subgoal by (simp only: block_iffs) (simp; arith)
    apply (rule modules_shape_ConsI)
    subgoal by (simp only: block_iffs) (simp; arith)
    apply (rule modules_shape_ConsI)
    subgoal by (simp only: block_iffs) (simp; arith)
    apply simp
    done
qed


lemma EBEN_shapes_only_valid:
  assumes init: "DiscriminatorEBEN_init w d Q = Inr D"
    and R: "modules_shape (DiscriminatorEBEN.discriminator D) (b, c, n) = Inr shs"
  shows "c = Q \<and> 1 \<le> d \<and> 2 \<le> n \<and> 316 * d \<le> n + 317"
proof -
  note D = DiscriminatorEBEN_init_Inr [OF init]
  have len: "length (DiscriminatorEBEN.discriminator D) = 8"
    by (subst D(4)) simp
  note st = modules_shape_nth [OF R, unfolded len]
  have s0: "c = Q \<and> 1 \<le> d \<and> 2 \<le> n \<and> 2 * d \<le> n + 3 \<and> shs ! 0 = (b, 80, n + 4 - 2 * d)"
    using st [of 0] by (simp add: D(4) block_iffs del: module_shape.simps; arith)
  from s0 have d1: "1 \<le> d" and n0: "shs ! 0 = (b, 80, n + 4 - 2 * d)" by simp_all
  have s1: "shs ! 1 = (b, 160, (n + 11 - 8 * d) div 2)"
    using st [of 1] d1 n0 by (simp add: D(4) block_iffs del: module_shape.simps; arith)
  have s2: "shs ! 2 = (b, 320, (n + 25 - 20 * d) div 4)"
    using st [of 2] d1 s1 by (simp add: D(4) block_iffs del: module_shape.simps; arith)
  have s3: "shs ! 3 = (b, 480, (n + 53 - 44 * d) div 8)"
    using st [of 3] d1 s2 by (simp add: D(4) block_iffs del: module_shape.simps; arith)
  have s4: "shs ! 4 = (b, 640, (n + 109 - 92 * d) div 16)"
    using st [of 4] d1 s3 by (simp add: D(4) block_iffs del: module_shape.simps; arith)
  have s5: "shs ! 5 = (b, 960, (n + 221 - 188 * d) div 32)"
    using st [of 5] d1 s4 by (simp add: D(4) block_iffs del: module_shape.simps; arith)
  have s6: "4 * d \<le> (n + 221 - 188 * d) div 32 + 3"
    using st [of 6] d1 s5 by (simp add: D(4) block_iffs del: module_shape.simps; arith)
  from s0 s6 show ?thesis by arith
qed

lemma DiscriminatorMelGAN_init_eq:
  "DiscriminatorMelGAN_init w =
     Inr \<lparr>DiscriminatorMelGAN.discriminator =
       [Sequential [ReflectionPad1d 7,
          Conv1d \<lparr>in_channels = 1, out_channels = 16, kernel_size = 15, stride = 1,
            padding = 0, conv1d.dilation = 1, groups = 1, weight = w 0, weight_normed = True\<rparr>,
          LeakyReLU 0.2 True],
        Sequential [
          Conv1d \<lparr>in_channels = 16, out_channels = 64, kernel_size = 41, stride = 4,
            padding = 20, conv1d.dilation = 1, groups = 4, weight = w 1, weight_normed = True\<rparr>,
          LeakyReLU 0.2 True],
        Sequential [
          Conv1d \<lparr>in_channels = 64, out_channels = 256, kernel_size = 41, stride = 4,
            padding = 20, conv1d.dilation = 1, groups = 4, weight = w 2, weight_normed = True\<rparr>,
          LeakyReLU 0.2 True],
        Sequential [
          Conv1d \<lparr>in_channels = 256, out_channels = 1024, kernel_size = 41, stride = 4,
            padding = 20, conv1d.dilation = 1, groups = 4, weight = w 3, weight_normed = True\<rparr>,
          LeakyReLU 0.2 True],
        Sequential [
          Conv1d \<lparr>in_channels = 1024, out_channels = 1024, kernel_size = 41, stride = 4,
            padding = 20, conv1d.dilation = 1, groups = 4, weight = w 4, weight_normed = True\<rparr>,
          LeakyReLU 0.2 True],
        Sequential [
          Conv1d \<lparr>in_channels = 1024, out_channels = 1024, kernel_size = 5, stride = 1,
            padding = 2, conv1d.dilation = 1, groups = 1, weight = w 5, weight_normed = True\<rparr>,
          LeakyReLU 0.2 True],
        Single (
          Conv1d \<lparr>in_channels = 1024, out_channels = 1, kernel_size = 3, stride = 1,
            padding = 1, conv1d.dilation = 1, groups = 1, weight = w 6, weight_normed = True\<rparr>)]\<rparr>"
  by (simp add: DiscriminatorMelGAN_init_def normalized_conv1d_eq)

lemmas MelGAN_modules =
  arg_cong [OF DiscriminatorMelGAN_init_eq, where f = "\<lambda>r. DiscriminatorMelGAN.discriminator (projr r)",
    unfolded sum.sel DiscriminatorMelGAN.simps]

lemma DiscriminatorMelGAN_init_Inr:
  "DiscriminatorMelGAN_init w = Inr G \<Longrightarrow>
   DiscriminatorMelGAN.discriminator G =
     DiscriminatorMelGAN.discriminator (projr (DiscriminatorMelGAN_init w))"
  by simp

lemma MelGAN_shapes_valid:
  assumes v: "c = 1" "8 \<le> n"
  shows "modules_shape (DiscriminatorMelGAN.discriminator (projr (DiscriminatorMelGAN_init w))) (b, c, n) =
     Inr [(b, 16, n), (b, 64, (n + 3) div 4), (b, 256, (n + 15) div 16),
          (b, 1024, (n + 63) div 64), (b, 1024, (n + 255) div 256),
          (b, 1024, (n + 255) div 256), (b, 1, (n + 255) div 256)]"
  using v
  apply (subst MelGAN_modules)
  apply (rule modules_shape_ConsI)
  subgoal by (simp only: block_iffs) (simp; arith)
  apply (rule modules_shape_ConsI)
  subgoal by (simp only: block_iffs) (simp; arith)
  apply (rule modules_shape_ConsI)
  subgoal by (simp only: block_iffs) (simp; arith)
  apply (rule modules_shape_ConsI)
  subgoal by (simp only: block_iffs) (simp; arith)
  apply (rule modules_shape_ConsI)
  subgoal by (simp only: block_iffs) (simp; arith)
  apply (rule modules_shape_ConsI)
  subgoal by (simp only: block_iffs) (simp; arith)
  apply (rule modules_shape_ConsI)
  subgoal by (simp only: block_iffs) (simp; arith)
  apply simp
  done

lemma MelGAN_shapes_only_valid:
  assumes R: "modules_shape (DiscriminatorMelGAN.discriminator (projr (DiscriminatorMelGAN_init w))) (b, c, n) = Inr shs"
  shows "c = 1 \<and> 8 \<le> n"
proof -
  have len: "length (DiscriminatorMelGAN.discriminator (projr (DiscriminatorMelGAN_init w))) = 7"
    by (subst MelGAN_modules) simp
  note st = modules_shape_nth [OF R, unfolded len]
  show ?thesis
    using st [of 0] by (simp add: MelGAN_modules block_iffs del: module_shape.simps; arith)
qed

section \<open>What a discriminator returns and what it leaves alone\<close>

lemma outcome_simps [simp]:
  "outcome (Inl e) = Inl e" "outcome (Inr (E, s)) = Inr (deref s E)"
  by (simp_all add: outcome_def)

lemma outcomes_simps [simp]:
  "outcomes (Inl e) = Inl e" "outcomes (Inr (EE, s)) = Inr (map (deref s) EE)"
  by (simp_all add: outcomes_def)

text \<open>One discriminator: what a call returns and what it leaves alone.\<close>

lemma forward_modules_Inl:
  assumes "list_all fresh ms" "x < length s" "modules_apply K ms (s ! x) = Inl e"
  shows "forward_modules K ms [x] s = Inl e"
  using forward_modules_frame [of ms "[x]" s K] assms by simp

lemma forward_modules_Inr:
  assumes "list_all fresh ms" "x < length s" "modules_apply K ms (s ! x) = Inr ts"
  shows "\<exists>ys s'. forward_modules K ms [x] s = Inr (x # ys, s') \<and>
           deref s' (x # ys) = s ! x # ts \<and> take (length s) s' = s \<and>
           list_all (\<lambda>a. length s \<le> a \<and> a < length s') ys"
  using forward_modules_frame [of ms "[x]" s K] assms by (simp add: deref_def)

lemma forward_modules_dangling:
  assumes "list_all fresh ms" "ms \<noteq> []" "\<not> x < length s"
  shows "forward_modules K ms [x] s = Inl DanglingReference"
proof -
  from assms obtain m ms' where ms: "ms = m # ms'" "fresh m" by (cases ms) auto
  have "module_forward K m x s = Inl DanglingReference"
  proof (cases m)
    case (Single l)
    with assms(3) show ?thesis by (simp add: layer_forward_def)
  next
    case (Sequential ls)
    with ms(2) obtain l ls' where "ls = l # ls'" by (cases ls) auto
    with Sequential assms(3) show ?thesis by (simp add: layer_forward_def)
  qed
  with ms show ?thesis by simp
qed

lemma modules_apply_length:
  "modules_apply K ms t = Inr ts \<Longrightarrow> length ts = length ms"
proof (induction ms arbitrary: t ts)
  case Nil
  then show ?case by simp
next
  case (Cons m ms)
  then show ?case by (auto simp: bindE_eq_Inr)
qed

lemma forward_modules_result:
  assumes fr: "list_all fresh ms" and ne: "ms \<noteq> []"
    and R: "forward_modules K ms [x] s = Inr (E, s')"
  shows "x < length s" "modules_apply K ms (s ! x) = Inr (tl (deref s' E))"
    "hd E = x" "deref s' E ! 0 = s ! x" "length E = Suc (length ms)"
    "take (length s) s' = s" "list_all (\<lambda>a. length s \<le> a \<and> a < length s') (tl E)"
proof -
  show x: "x < length s"
    using forward_modules_dangling [OF fr ne, of x s K] R by auto
  obtain ts where ts: "modules_apply K ms (s ! x) = Inr ts"
    using forward_modules_Inl [OF fr x, of K] R by (cases "modules_apply K ms (s ! x)") auto
  from forward_modules_Inr [OF fr x ts] R obtain ys where
    ys: "E = x # ys" "deref s' (x # ys) = s ! x # ts" "take (length s) s' = s"
      "list_all (\<lambda>a. length s \<le> a \<and> a < length s') ys"
    by auto
  from ys ts show "modules_apply K ms (s ! x) = Inr (tl (deref s' E))" by simp
  from ys show "hd E = x" by simp
  from ys show "deref s' E ! 0 = s ! x" by simp
  from ys(1,2) modules_apply_length [OF ts] show "length E = Suc (length ms)"
    by (metis length_Cons length_map deref_def)
  from ys show "take (length s) s' = s" by simp
  from ys show "list_all (\<lambda>a. length s \<le> a \<and> a < length s') (tl E)" by simp
qed

lemma forward_modules_outcome:
  assumes "list_all fresh ms" "x < length s"
  shows "outcome (forward_modules K ms [x] s) =
         bindE (modules_apply K ms (s ! x)) (\<lambda>ts. Inr (s ! x # ts))"
proof (cases "modules_apply K ms (s ! x)")
  case (Inl e)
  with forward_modules_Inl [OF assms Inl] show ?thesis by simp
next
  case (Inr ts)
  with forward_modules_Inr [OF assms Inr] show ?thesis by auto
qed

section \<open>Construction of the ensemble, and calls\<close>

lemma dvd_all_iff:
  "((Q::nat) dvd 80 \<and> Q dvd 160 \<and> Q dvd 320 \<and> Q dvd 480 \<and> Q dvd 640 \<and> Q dvd 960) = (Q dvd 80)"
  using dvd80 by blast

lemma DiscriminatorMultiScales_init_eq:
  "DiscriminatorMultiScales_init wb wm Q =
     (if Q = 0 then Inl GroupsNotPositive
      else if \<not> Q dvd 80 then Inl OutChannelsNotDivisible
      else Inr \<lparr>q = Q,
             pqmf_discriminators =
               [projr (DiscriminatorEBEN_init (wb 1) 1 Q),
                projr (DiscriminatorEBEN_init (wb 2) 2 Q),
                projr (DiscriminatorEBEN_init (wb 3) 3 Q)],
             melgan_discriminator = projr (DiscriminatorMelGAN_init wm)\<rparr>)"
proof (cases "Q = 0 \<or> \<not> Q dvd 80")
  case True
  then show ?thesis
    by (auto simp: DiscriminatorMultiScales_init_def DiscriminatorEBEN_init_eq)
next
  case False
  then obtain D1 D2 D3 where D:
    "DiscriminatorEBEN_init (wb 1) 1 Q = Inr D1"
    "DiscriminatorEBEN_init (wb 2) 2 Q = Inr D2"
    "DiscriminatorEBEN_init (wb 3) 3 Q = Inr D3"
    by (simp add: DiscriminatorEBEN_init_eq)
  obtain G where G: "DiscriminatorMelGAN_init wm = Inr G"
    by (simp add: DiscriminatorMelGAN_init_eq)
  from False D G show ?thesis
    by (simp add: DiscriminatorMultiScales_init_def)
qed

subsection \<open>When a discriminator returns, and the shapes it returns\<close>

lemma EBEN_modules_fresh:
  assumes "DiscriminatorEBEN_init w d Q = Inr D"
  shows "list_all fresh (DiscriminatorEBEN.discriminator D)"
    "DiscriminatorEBEN.discriminator D \<noteq> []"
    "length (DiscriminatorEBEN.discriminator D) = 8"
  by (simp_all add: DiscriminatorEBEN_init_Inr(4) [OF assms])

lemma MelGAN_modules_fresh:
  assumes "DiscriminatorMelGAN_init w = Inr G"
  shows "list_all fresh (DiscriminatorMelGAN.discriminator G)"
    "DiscriminatorMelGAN.discriminator G \<noteq> []"
    "length (DiscriminatorMelGAN.discriminator G) = 7"
  unfolding DiscriminatorMelGAN_init_Inr [OF assms] MelGAN_modules by simp_all

lemma modules_apply_shape_Inr:
  "modules_apply K ms t = Inr ts \<Longrightarrow> modules_shape ms (shape t) = Inr (map shape ts)"
  using modules_apply_shape [of K ms t] by simp

lemma modules_apply_returns_iff:
  "(\<exists>ts. modules_apply K ms t = Inr ts) = (\<exists>shs. modules_shape ms (shape t) = Inr shs)"
  using modules_apply_shape [of K ms t]
  by (cases "modules_apply K ms t"; cases "modules_shape ms (shape t)") auto

lemma forward_modules_returns_iff:
  assumes "list_all fresh ms" "x < length s"
  shows "(\<exists>E s'. forward_modules K ms [x] s = Inr (E, s')) =
         (\<exists>shs. modules_shape ms (shape (s ! x)) = Inr shs)"
proof (cases "modules_apply K ms (s ! x)")
  case (Inl e)
  with forward_modules_Inl [OF assms Inl] modules_apply_returns_iff [of K ms "s ! x"]
  show ?thesis by simp
next
  case (Inr ts)
  with forward_modules_Inr [OF assms Inr] modules_apply_returns_iff [of K ms "s ! x"]
  show ?thesis by auto
qed

lemma forward_modules_shapes:
  assumes fr: "list_all fresh ms" and ne: "ms \<noteq> []"
    and R: "forward_modules K ms [x] s = Inr (E, s')"
  shows "\<exists>shs. modules_shape ms (shape (s ! x)) = Inr shs \<and>
           map shape (deref s' E) = shape (s ! x) # shs"
proof -
  note r = forward_modules_result [OF fr ne R]
  from r(5) have E: "E \<noteq> []" by auto
  then have "deref s' E = deref s' E ! 0 # tl (deref s' E)"
    by (cases E) (simp_all add: deref_def)
  with r(4) have "map shape (deref s' E) = shape (s ! x) # map shape (tl (deref s' E))"
    by (metis list.simps(9))
  with modules_apply_shape_Inr [OF r(2)] show ?thesis
    by (intro exI [of _ "map shape (tl (deref s' E))"] conjI)
qed

lemma EBEN_returns_iff:
  assumes init: "DiscriminatorEBEN_init w d Q = Inr D" and x: "bands < length s"
  shows "(\<exists>E s'. DiscriminatorEBEN_forward K D bands s = Inr (E, s')) =
         (chans (s ! bands) = Q \<and> 1 \<le> d \<and> 2 \<le> time (s ! bands) \<and>
          316 * d \<le> time (s ! bands) + 317)"
proof -
  have "(\<exists>E s'. DiscriminatorEBEN_forward K D bands s = Inr (E, s')) =
        (\<exists>shs. modules_shape (DiscriminatorEBEN.discriminator D)
           (batch (s ! bands), chans (s ! bands), time (s ! bands)) = Inr shs)"
    using forward_modules_returns_iff [OF EBEN_modules_fresh(1) [OF init] x, of K]
    by (simp add: DiscriminatorEBEN_forward_def shape_def)
  also have "\<dots> = (chans (s ! bands) = Q \<and> 1 \<le> d \<and> 2 \<le> time (s ! bands) \<and>
          316 * d \<le> time (s ! bands) + 317)"
  proof
    assume "\<exists>shs. modules_shape (DiscriminatorEBEN.discriminator D)
           (batch (s ! bands), chans (s ! bands), time (s ! bands)) = Inr shs"
    then obtain shs where "modules_shape (DiscriminatorEBEN.discriminator D)
           (batch (s ! bands), chans (s ! bands), time (s ! bands)) = Inr shs" ..
    from EBEN_shapes_only_valid [OF init this]
    show "chans (s ! bands) = Q \<and> 1 \<le> d \<and> 2 \<le> time (s ! bands) \<and>
          316 * d \<le> time (s ! bands) + 317" .
  next
    assume "chans (s ! bands) = Q \<and> 1 \<le> d \<and> 2 \<le> time (s ! bands) \<and>
          316 * d \<le> time (s ! bands) + 317"
    then have v: "chans (s ! bands) = Q" "1 \<le> d" "2 \<le> time (s ! bands)"
      "316 * d \<le> time (s ! bands) + 317" by simp_all
    from EBEN_shapes_valid [OF init v, of "batch (s ! bands)"]
    show "\<exists>shs. modules_shape (DiscriminatorEBEN.discriminator D)
           (batch (s ! bands), chans (s ! bands), time (s ! bands)) = Inr shs" ..
  qed
  finally show ?thesis .
qed

lemma EBEN_forward_shapes:
  assumes init: "DiscriminatorEBEN_init w d Q = Inr D"
    and R: "DiscriminatorEBEN_forward K D bands s = Inr (E, s')"
    and sh: "shape (s ! bands) = (b, c, n)"
  shows "map shape (deref s' E) =
     [(b, Q, n), (b, 80, n + 4 - 2 * d), (b, 160, (n + 11 - 8 * d) div 2),
      (b, 320, (n + 25 - 20 * d) div 4), (b, 480, (n + 53 - 44 * d) div 8),
      (b, 640, (n + 109 - 92 * d) div 16), (b, 960, (n + 221 - 188 * d) div 32),
      (b, 960, (n + 221 - 188 * d) div 32 + 4 - 4 * d),
      (b, 1, (n + 221 - 188 * d) div 32 + 4 - 4 * d)]"
    "c = Q" "1 \<le> d" "2 \<le> n" "316 * d \<le> n + 317"
proof -
  from forward_modules_shapes [OF EBEN_modules_fresh(1,2) [OF init] R [unfolded DiscriminatorEBEN_forward_def]] sh
  obtain shs where shs: "modules_shape (DiscriminatorEBEN.discriminator D) (b, c, n) = Inr shs"
    "map shape (deref s' E) = (b, c, n) # shs"
    by auto
  from EBEN_shapes_only_valid [OF init shs(1)]
  show v: "c = Q" "1 \<le> d" "2 \<le> n" "316 * d \<le> n + 317" by simp_all
  from EBEN_shapes_valid [OF init v, of b] shs
  show "map shape (deref s' E) =
     [(b, Q, n), (b, 80, n + 4 - 2 * d), (b, 160, (n + 11 - 8 * d) div 2),
      (b, 320, (n + 25 - 20 * d) div 4), (b, 480, (n + 53 - 44 * d) div 8),
      (b, 640, (n + 109 - 92 * d) div 16), (b, 960, (n + 221 - 188 * d) div 32),
      (b, 960, (n + 221 - 188 * d) div 32 + 4 - 4 * d),
      (b, 1, (n + 221 - 188 * d) div 32 + 4 - 4 * d)]"
    using v(1) by simp
qed

lemma MelGAN_returns_iff:
  assumes init: "DiscriminatorMelGAN_init w = Inr G" and x: "audio < length s"
  shows "(\<exists>E s'. DiscriminatorMelGAN_forward K G audio s = Inr (E, s')) =
         (chans (s ! audio) = 1 \<and> 8 \<le> time (s ! audio))"
proof -
  note G = DiscriminatorMelGAN_init_Inr [OF init]
  have "(\<exists>E s'. DiscriminatorMelGAN_forward K G audio s = Inr (E, s')) =
        (\<exists>shs. modules_shape (DiscriminatorMelGAN.discriminator G)
           (batch (s ! audio), chans (s ! audio), time (s ! audio)) = Inr shs)"
    using forward_modules_returns_iff [OF MelGAN_modules_fresh(1) [OF init] x, of K]
    by (simp add: DiscriminatorMelGAN_forward_def shape_def)
  also have "\<dots> = (chans (s ! audio) = 1 \<and> 8 \<le> time (s ! audio))"
  proof
    assume "\<exists>shs. modules_shape (DiscriminatorMelGAN.discriminator G)
           (batch (s ! audio), chans (s ! audio), time (s ! audio)) = Inr shs"
    then obtain shs where "modules_shape (DiscriminatorMelGAN.discriminator G)
           (batch (s ! audio), chans (s ! audio), time (s ! audio)) = Inr shs" ..
    from MelGAN_shapes_only_valid [OF this [unfolded G]]
    show "chans (s ! audio) = 1 \<and> 8 \<le> time (s ! audio)" .
  next
    assume "chans (s ! audio) = 1 \<and> 8 \<le> time (s ! audio)"
    then have v: "chans (s ! audio) = 1" "8 \<le> time (s ! audio)" by simp_all
    from MelGAN_shapes_valid [OF v, of w "batch (s ! audio)", folded G]
    show "\<exists>shs. modules_shape (DiscriminatorMelGAN.discriminator G)
           (batch (s ! audio), chans (s ! audio), time (s ! audio)) = Inr shs" ..
  qed
  finally show ?thesis .
qed

lemma MelGAN_forward_shapes:
  assumes init: "DiscriminatorMelGAN_init w = Inr G"
    and R: "DiscriminatorMelGAN_forward K G audio s = Inr (E, s')"
    and sh: "shape (s ! audio) = (b, c, n)"
  shows "map shape (deref s' E) =
     [(b, 1, n), (b, 16, n), (b, 64, (n + 3) div 4), (b, 256, (n + 15) div 16),
      (b, 1024, (n + 63) div 64), (b, 1024, (n + 255) div 256),
      (b, 1024, (n + 255) div 256), (b, 1, (n + 255) div 256)]"
    "c = 1" "8 \<le> n"
proof -
  note G = DiscriminatorMelGAN_init_Inr [OF init]
  from forward_modules_shapes [OF MelGAN_modules_fresh(1,2) [OF init] R [unfolded DiscriminatorMelGAN_forward_def]] sh
  obtain shs where shs: "modules_shape (DiscriminatorMelGAN.discriminator G) (b, c, n) = Inr shs"
    "map shape (deref s' E) = (b, c, n) # shs"
    by auto
  from MelGAN_shapes_only_valid [OF shs(1) [unfolded G]]
  show v: "c = 1" "8 \<le> n" by simp_all
  from MelGAN_shapes_valid [OF v, of w b] shs
  show "map shape (deref s' E) =
     [(b, 1, n), (b, 16, n), (b, 64, (n + 3) div 4), (b, 256, (n + 15) div 16),
      (b, 1024, (n + 63) div 64), (b, 1024, (n + 255) div 256),
      (b, 1024, (n + 255) div 256), (b, 1, (n + 255) div 256)]"
    using v(1) unfolding G by simp
qed

subsection \<open>The calls of the ensemble\<close>

lemma DiscriminatorMultiScales_init_Inr:
  assumes "DiscriminatorMultiScales_init wb wm Q = Inr M"
  obtains D1 D2 D3 G where
    "DiscriminatorEBEN_init (wb 1) 1 Q = Inr D1"
    "DiscriminatorEBEN_init (wb 2) 2 Q = Inr D2"
    "DiscriminatorEBEN_init (wb 3) 3 Q = Inr D3"
    "DiscriminatorMelGAN_init wm = Inr G"
    "pqmf_discriminators M = [D1, D2, D3]" "melgan_discriminator M = G"
proof -
  from assms have Q: "Q \<noteq> 0" "Q dvd 80"
    by (auto simp: DiscriminatorMultiScales_init_eq split: if_splits)
  then obtain D1 D2 D3 where D:
    "DiscriminatorEBEN_init (wb 1) 1 Q = Inr D1"
    "DiscriminatorEBEN_init (wb 2) 2 Q = Inr D2"
    "DiscriminatorEBEN_init (wb 3) 3 Q = Inr D3"
    by (simp add: DiscriminatorEBEN_init_eq)
  obtain G where G: "DiscriminatorMelGAN_init wm = Inr G"
    by (simp add: DiscriminatorMelGAN_init_eq)
  from assms Q D G have "pqmf_discriminators M = [D1, D2, D3]" "melgan_discriminator M = G"
    by (auto simp: DiscriminatorMultiScales_init_eq)
  with D G that show thesis by blast
qed

lemma DiscriminatorMultiScales_forward_unfold:
  assumes "pqmf_discriminators M = [D1, D2, D3]" "melgan_discriminator M = G"
  shows "DiscriminatorMultiScales_forward K M bands audio s =
     bindE (DiscriminatorEBEN_forward K D1 bands s) (\<lambda>(e1, s1).
     bindE (DiscriminatorEBEN_forward K D2 bands s1) (\<lambda>(e2, s2).
     bindE (DiscriminatorEBEN_forward K D3 bands s2) (\<lambda>(e3, s3).
     bindE (DiscriminatorMelGAN_forward K G audio s3) (\<lambda>(e4, s4).
     Inr ([e1, e2, e3, e4], s4)))))"
  using assms
  by (cases "DiscriminatorEBEN_forward K D1 bands s")
     (auto simp: DiscriminatorMultiScales_forward_def bindE_def split: sum.splits prod.splits)

text \<open>What a returning call of one discriminator guarantees about the store.\<close>

lemma forward_modules_store:
  assumes fr: "list_all fresh ms" and ne: "ms \<noteq> []"
    and R: "forward_modules K ms [x] s = Inr (E, s')"
  shows "x < length s" "take (length s) s' = s" "length s \<le> length s'"
    "list_all (\<lambda>a. a < length s') E" "deref s' E = s ! x # tl (deref s' E)"
    "\<And>a. a < length s \<Longrightarrow> s' ! a = s ! a"
proof -
  note r = forward_modules_result [OF fr ne R]
  show "x < length s" by (rule r(1))
  show tk: "take (length s) s' = s" by (rule r(6))
  then show len: "length s \<le> length s'"
    by (metis length_take min.cobounded1 min.commute)
  from r(5) obtain ys where E: "E = hd E # ys" by (cases E) auto
  with r(3) have E': "E = x # ys" by simp
  with r(7) r(1) len show "list_all (\<lambda>a. a < length s') E"
    by (auto simp: list_all_iff)
  from r(4) E' show "deref s' E = s ! x # tl (deref s' E)"
    by (simp add: deref_def)
  show "\<And>a. a < length s \<Longrightarrow> s' ! a = s ! a"
    using nth_of_take [OF tk] .
qed

lemma EBEN_forward_store:
  assumes init: "DiscriminatorEBEN_init w d Q = Inr D"
    and R: "DiscriminatorEBEN_forward K D x s = Inr (E, s')"
  shows "x < length s" "take (length s) s' = s" "length s \<le> length s'"
    "list_all (\<lambda>a. a < length s') E" "deref s' E = s ! x # tl (deref s' E)"
    "\<And>a. a < length s \<Longrightarrow> s' ! a = s ! a"
  using forward_modules_store [OF EBEN_modules_fresh(1,2) [OF init]
      R [unfolded DiscriminatorEBEN_forward_def]]
  by blast+

lemma MelGAN_forward_store:
  assumes init: "DiscriminatorMelGAN_init w = Inr G"
    and R: "DiscriminatorMelGAN_forward K G x s = Inr (E, s')"
  shows "x < length s" "take (length s) s' = s" "length s \<le> length s'"
    "list_all (\<lambda>a. a < length s') E" "deref s' E = s ! x # tl (deref s' E)"
    "\<And>a. a < length s \<Longrightarrow> s' ! a = s ! a"
  using forward_modules_store [OF MelGAN_modules_fresh(1,2) [OF init]
      R [unfolded DiscriminatorMelGAN_forward_def]]
  by blast+

lemma EBEN_forward_outcome:
  assumes "DiscriminatorEBEN_init w d Q = Inr D" "bands < length s"
  shows "outcome (DiscriminatorEBEN_forward K D bands s) =
         bindE (modules_apply K (DiscriminatorEBEN.discriminator D) (s ! bands))
           (\<lambda>ts. Inr (s ! bands # ts))"
  unfolding DiscriminatorEBEN_forward_def
  by (rule forward_modules_outcome [OF EBEN_modules_fresh(1) [OF assms(1)] assms(2)])

lemma MelGAN_forward_outcome:
  assumes "DiscriminatorMelGAN_init w = Inr G" "audio < length s"
  shows "outcome (DiscriminatorMelGAN_forward K G audio s) =
         bindE (modules_apply K (DiscriminatorMelGAN.discriminator G) (s ! audio))
           (\<lambda>ts. Inr (s ! audio # ts))"
  unfolding DiscriminatorMelGAN_forward_def
  by (rule forward_modules_outcome [OF MelGAN_modules_fresh(1) [OF assms(1)] assms(2)])

text \<open>The outcome of a call depends on the store only through the tensor the reference holds.\<close>

lemma EBEN_forward_outcome_cong:
  assumes "DiscriminatorEBEN_init w d Q = Inr D" "x < length s" "y < length t" "s ! x = t ! y"
  shows "outcome (DiscriminatorEBEN_forward K D x s) = outcome (DiscriminatorEBEN_forward K D y t)"
  using assms by (simp add: EBEN_forward_outcome)

lemma MelGAN_forward_outcome_cong:
  assumes "DiscriminatorMelGAN_init w = Inr G" "x < length s" "y < length t" "s ! x = t ! y"
  shows "outcome (DiscriminatorMelGAN_forward K G x s) = outcome (DiscriminatorMelGAN_forward K G y t)"
  using assms by (simp add: MelGAN_forward_outcome)

lemma deref_later:
  assumes "list_all (\<lambda>a. a < length s1) E" "\<And>a. a < length s1 \<Longrightarrow> s2 ! a = s1 ! a"
  shows "deref s2 E = deref s1 E"
  using assms by (induction E) (auto simp: deref_def)

lemma MultiScales_outcomes:
  assumes D: "DiscriminatorEBEN_init (wb 1) 1 Q = Inr D1"
    "DiscriminatorEBEN_init (wb 2) 2 Q = Inr D2"
    "DiscriminatorEBEN_init (wb 3) 3 Q = Inr D3"
    "DiscriminatorMelGAN_init wm = Inr G"
    and M: "pqmf_discriminators M = [D1, D2, D3]" "melgan_discriminator M = G"
    and x: "bands < length s" "audio < length s"
  shows "outcomes (DiscriminatorMultiScales_forward K M bands audio s) =
     bindE (outcome (DiscriminatorEBEN_forward K D1 bands s)) (\<lambda>o1.
     bindE (outcome (DiscriminatorEBEN_forward K D2 bands s)) (\<lambda>o2.
     bindE (outcome (DiscriminatorEBEN_forward K D3 bands s)) (\<lambda>o3.
     bindE (outcome (DiscriminatorMelGAN_forward K G audio s)) (\<lambda>o4.
     Inr [o1, o2, o3, o4]))))"
proof (cases "DiscriminatorEBEN_forward K D1 bands s")
  case (Inl e)
  then show ?thesis by (simp add: DiscriminatorMultiScales_forward_unfold [OF M])
next
  case r1: (Inr p1)
  obtain E1 s1 where p1: "p1 = (E1, s1)" by (cases p1)
  note R1 = r1 [unfolded p1]
  note st1 = EBEN_forward_store [OF D(1) R1]
  have x1: "bands < length s1" "audio < length s1" using x st1(3) by simp_all
  have c1: "s ! bands = s1 ! bands" "s ! audio = s1 ! audio" using st1(6) x by simp_all
  have o2: "outcome (DiscriminatorEBEN_forward K D2 bands s) =
            outcome (DiscriminatorEBEN_forward K D2 bands s1)"
    by (rule EBEN_forward_outcome_cong [OF D(2) x(1) x1(1) c1(1)])
  show ?thesis
  proof (cases "DiscriminatorEBEN_forward K D2 bands s1")
    case (Inl e)
    with R1 o2 show ?thesis by (simp add: DiscriminatorMultiScales_forward_unfold [OF M])
  next
    case r2: (Inr p2)
    obtain E2 s2 where p2: "p2 = (E2, s2)" by (cases p2)
    note R2 = r2 [unfolded p2]
    note st2 = EBEN_forward_store [OF D(2) R2]
    have x2: "bands < length s2" "audio < length s2" using x1 st2(3) by simp_all
    have c2: "s ! bands = s2 ! bands" "s ! audio = s2 ! audio" using st2(6) x1 c1 by simp_all
    have o3: "outcome (DiscriminatorEBEN_forward K D3 bands s) =
              outcome (DiscriminatorEBEN_forward K D3 bands s2)"
      by (rule EBEN_forward_outcome_cong [OF D(3) x(1) x2(1) c2(1)])
    show ?thesis
    proof (cases "DiscriminatorEBEN_forward K D3 bands s2")
      case (Inl e)
      with R1 R2 o2 o3 show ?thesis by (simp add: DiscriminatorMultiScales_forward_unfold [OF M])
    next
      case r3: (Inr p3)
      obtain E3 s3 where p3: "p3 = (E3, s3)" by (cases p3)
      note R3 = r3 [unfolded p3]
      note st3 = EBEN_forward_store [OF D(3) R3]
      have x3: "bands < length s3" "audio < length s3" using x2 st3(3) by simp_all
      have c3: "s ! audio = s3 ! audio" using st3(6) x2 c2 by simp
      have o4: "outcome (DiscriminatorMelGAN_forward K G audio s) =
                outcome (DiscriminatorMelGAN_forward K G audio s3)"
        by (rule MelGAN_forward_outcome_cong [OF D(4) x(2) x3(2) c3])
      show ?thesis
      proof (cases "DiscriminatorMelGAN_forward K G audio s3")
        case (Inl e)
        with R1 R2 R3 o2 o3 o4 show ?thesis
          by (simp add: DiscriminatorMultiScales_forward_unfold [OF M])
      next
        case r4: (Inr p4)
        obtain E4 s4 where p4: "p4 = (E4, s4)" by (cases p4)
        note R4 = r4 [unfolded p4]
        note st4 = MelGAN_forward_store [OF D(4) R4]
        have a3: "\<And>a. a < length s3 \<Longrightarrow> s4 ! a = s3 ! a" by (rule st4(6))
        have a2: "\<And>a. a < length s2 \<Longrightarrow> s4 ! a = s2 ! a"
          using a3 st3(6) st3(3) by (metis less_le_trans)
        have a1: "\<And>a. a < length s1 \<Longrightarrow> s4 ! a = s1 ! a"
          using a2 st2(6) st2(3) by (metis less_le_trans)
        have d1: "deref s4 E1 = deref s1 E1" by (rule deref_later [OF st1(4) a1])
        have d2: "deref s4 E2 = deref s2 E2" by (rule deref_later [OF st2(4) a2])
        have d3: "deref s4 E3 = deref s3 E3" by (rule deref_later [OF st3(4) a3])
        from R1 R2 R3 R4 o2 o3 o4 d1 d2 d3 show ?thesis
          by (simp add: DiscriminatorMultiScales_forward_unfold [OF M])
      qed
    qed
  qed
qed

lemma EBEN_returns:
  assumes init: "DiscriminatorEBEN_init w d Q = Inr D" and x: "bands < length s"
    and v: "chans (s ! bands) = Q" "1 \<le> d" "2 \<le> time (s ! bands)"
      "316 * d \<le> time (s ! bands) + 317"
  obtains E s' where "DiscriminatorEBEN_forward K D bands s = Inr (E, s')"
  using EBEN_returns_iff [OF init x, of K] v by blast

lemma MelGAN_returns:
  assumes init: "DiscriminatorMelGAN_init w = Inr G" and x: "audio < length s"
    and v: "chans (s ! audio) = 1" "8 \<le> time (s ! audio)"
  obtains E s' where "DiscriminatorMelGAN_forward K G audio s = Inr (E, s')"
  using MelGAN_returns_iff [OF init x, of K] v by blast

lemma init_4: "DiscriminatorEBEN_init w d 4 = Inr (projr (DiscriminatorEBEN_init w d 4))"
  by (simp add: DiscriminatorEBEN_init_eq)

lemma init_melgan: "DiscriminatorMelGAN_init w = Inr (projr (DiscriminatorMelGAN_init w))"
  by (simp add: DiscriminatorMelGAN_init_eq)

lemma shape_parts:
  "batch t = fst (shape t)" "chans t = fst (snd (shape t))" "time t = snd (snd (shape t))"
  by (simp_all add: shape_def)

lemma map_shape_parts:
  "map batch ts = map fst (map shape ts)"
  "map chans ts = map (\<lambda>p. fst (snd p)) (map shape ts)"
  "map time ts = map (\<lambda>p. snd (snd p)) (map shape ts)"
  by (simp_all add: shape_def)

lemma shape_triple: "shape t = (batch t, chans t, time t)"
  by (simp add: shape_def)

lemma MultiScales_forward_Inr:
  assumes D: "DiscriminatorEBEN_init (wb 1) 1 Q = Inr D1"
    "DiscriminatorEBEN_init (wb 2) 2 Q = Inr D2"
    "DiscriminatorEBEN_init (wb 3) 3 Q = Inr D3"
    "DiscriminatorMelGAN_init wm = Inr G"
    and M: "pqmf_discriminators M = [D1, D2, D3]" "melgan_discriminator M = G"
    and x: "bands < length s" "audio < length s"
    and R: "DiscriminatorMultiScales_forward K M bands audio s = Inr (EE, s')"
  obtains E1 s1 E2 s2 E3 s3 E4 where
    "DiscriminatorEBEN_forward K D1 bands s = Inr (E1, s1)"
    "DiscriminatorEBEN_forward K D2 bands s1 = Inr (E2, s2)"
    "DiscriminatorEBEN_forward K D3 bands s2 = Inr (E3, s3)"
    "DiscriminatorMelGAN_forward K G audio s3 = Inr (E4, s')"
    "EE = [E1, E2, E3, E4]"
    "deref s' E1 = deref s1 E1" "deref s' E2 = deref s2 E2" "deref s' E3 = deref s3 E3"
    "s1 ! bands = s ! bands" "s2 ! bands = s ! bands" "s3 ! audio = s ! audio"
    "bands < length s1" "bands < length s2" "audio < length s3"
    "\<And>a. a < length s \<Longrightarrow> s' ! a = s ! a"
    "list_all (\<lambda>a. length s \<le> a) (tl E1 @ tl E2 @ tl E3 @ tl E4)"
    "take (length s) s' = s"
proof -
  from R [unfolded DiscriminatorMultiScales_forward_unfold [OF M]]
  obtain E1 s1 E2 s2 E3 s3 E4 where
    R1: "DiscriminatorEBEN_forward K D1 bands s = Inr (E1, s1)" and
    R2: "DiscriminatorEBEN_forward K D2 bands s1 = Inr (E2, s2)" and
    R3: "DiscriminatorEBEN_forward K D3 bands s2 = Inr (E3, s3)" and
    R4: "DiscriminatorMelGAN_forward K G audio s3 = Inr (E4, s')" and
    EE: "EE = [E1, E2, E3, E4]"
    by (auto simp: bindE_eq_Inr)
  note st1 = EBEN_forward_store [OF D(1) R1]
  note st2 = EBEN_forward_store [OF D(2) R2]
  note st3 = EBEN_forward_store [OF D(3) R3]
  note st4 = MelGAN_forward_store [OF D(4) R4]
  have a3: "\<And>a. a < length s3 \<Longrightarrow> s' ! a = s3 ! a" by (rule st4(6))
  have a2: "\<And>a. a < length s2 \<Longrightarrow> s' ! a = s2 ! a"
    using a3 st3(6) st3(3) by (metis less_le_trans)
  have a1: "\<And>a. a < length s1 \<Longrightarrow> s' ! a = s1 ! a"
    using a2 st2(6) st2(3) by (metis less_le_trans)
  have a0: "\<And>a. a < length s \<Longrightarrow> s' ! a = s ! a"
    using a1 st1(6) st1(3) by (metis less_le_trans)
  have l: "length s \<le> length s1" "length s \<le> length s2" "length s \<le> length s3"
    using st1(3) st2(3) st3(3) by simp_all
  have f1: "list_all (\<lambda>a. length s \<le> a) (tl E1)"
    using forward_modules_result(7) [OF EBEN_modules_fresh(1,2) [OF D(1)]
        R1 [unfolded DiscriminatorEBEN_forward_def]]
    by (auto simp: list_all_iff)
  have f2: "list_all (\<lambda>a. length s \<le> a) (tl E2)"
    using forward_modules_result(7) [OF EBEN_modules_fresh(1,2) [OF D(2)]
        R2 [unfolded DiscriminatorEBEN_forward_def]] l
    by (auto simp: list_all_iff)
  have f3: "list_all (\<lambda>a. length s \<le> a) (tl E3)"
    using forward_modules_result(7) [OF EBEN_modules_fresh(1,2) [OF D(3)]
        R3 [unfolded DiscriminatorEBEN_forward_def]] l
    by (auto simp: list_all_iff)
  have f4: "list_all (\<lambda>a. length s \<le> a) (tl E4)"
    using forward_modules_result(7) [OF MelGAN_modules_fresh(1,2) [OF D(4)]
        R4 [unfolded DiscriminatorMelGAN_forward_def]] l
    by (auto simp: list_all_iff)
  show thesis
  proof (rule that [OF R1 R2 R3 R4 EE])
    show "deref s' E1 = deref s1 E1" by (rule deref_later [OF st1(4) a1])
    show "deref s' E2 = deref s2 E2" by (rule deref_later [OF st2(4) a2])
    show "deref s' E3 = deref s3 E3" by (rule deref_later [OF st3(4) a3])
    show "s1 ! bands = s ! bands" using st1(6) x by simp
    then show "s2 ! bands = s ! bands" using st2(6) x l by simp
    show "s3 ! audio = s ! audio" using st1(6) st2(6) st3(6) x l by simp
    show "bands < length s1" "bands < length s2" "audio < length s3" using x l by simp_all
    show "\<And>a. a < length s \<Longrightarrow> s' ! a = s ! a" by (rule a0)
    show "list_all (\<lambda>a. length s \<le> a) (tl E1 @ tl E2 @ tl E3 @ tl E4)"
      using f1 f2 f3 f4 by simp
    have "take (length s) s2 = s"
      by (metis st2(2) st1(2) l(1) min.absorb1 take_take)
    then have "take (length s) s3 = s"
      by (metis st3(2) l(2) min.absorb1 take_take)
    then show "take (length s) s' = s"
      by (metis st4(2) l(3) min.absorb1 take_take)
  qed
qed

lemma EBEN_forward_chans:
  assumes init: "DiscriminatorEBEN_init w d Q = Inr D"
    and R: "DiscriminatorEBEN_forward K D bands s = Inr (E, s')"
  shows "map chans (deref s' E) = [Q, 80, 160, 320, 480, 640, 960, 960, 1]"
  unfolding map_shape_parts EBEN_forward_shapes(1) [OF init R shape_triple] by simp

lemma MelGAN_forward_chans:
  assumes init: "DiscriminatorMelGAN_init w = Inr G"
    and R: "DiscriminatorMelGAN_forward K G audio s = Inr (E, s')"
  shows "map chans (deref s' E) = [1, 16, 64, 256, 1024, 1024, 1024, 1]"
  unfolding map_shape_parts MelGAN_forward_shapes(1) [OF init R shape_triple] by simp

lemma last_chans:
  assumes "map chans ts = cs" "cs \<noteq> []"
  shows "chans (last ts) = last cs"
  using assms by (metis last_map map_is_Nil_conv)

lemma outcome_Inr_iff: "(\<exists>ts. outcome r = Inr ts) = (\<exists>E s'. r = Inr (E, s'))"
  by (cases r) (auto simp: outcome_def)

lemma outcomes_Inr_iff: "(\<exists>ts. outcomes r = Inr ts) = (\<exists>EE s'. r = Inr (EE, s'))"
  by (cases r) (auto simp: outcomes_def)

lemma MultiScales_returns_iff:
  assumes init: "DiscriminatorMultiScales_init wb wm Q = Inr M"
    and x: "bands < length s" "audio < length s"
  shows "(\<exists>EE s'. DiscriminatorMultiScales_forward K M bands audio s = Inr (EE, s')) =
     (chans (s ! bands) = Q \<and> 631 \<le> time (s ! bands) \<and>
      chans (s ! audio) = 1 \<and> 8 \<le> time (s ! audio))"
proof -
  from init obtain D1 D2 D3 G where D:
    "DiscriminatorEBEN_init (wb 1) 1 Q = Inr D1"
    "DiscriminatorEBEN_init (wb 2) 2 Q = Inr D2"
    "DiscriminatorEBEN_init (wb 3) 3 Q = Inr D3"
    "DiscriminatorMelGAN_init wm = Inr G"
    and M: "pqmf_discriminators M = [D1, D2, D3]" "melgan_discriminator M = G"
    by (rule DiscriminatorMultiScales_init_Inr)
  let ?o1 = "outcome (DiscriminatorEBEN_forward K D1 bands s)"
  let ?o2 = "outcome (DiscriminatorEBEN_forward K D2 bands s)"
  let ?o3 = "outcome (DiscriminatorEBEN_forward K D3 bands s)"
  let ?o4 = "outcome (DiscriminatorMelGAN_forward K G audio s)"
  have "(\<exists>EE s'. DiscriminatorMultiScales_forward K M bands audio s = Inr (EE, s')) =
        ((\<exists>t. ?o1 = Inr t) \<and> (\<exists>t. ?o2 = Inr t) \<and> (\<exists>t. ?o3 = Inr t) \<and> (\<exists>t. ?o4 = Inr t))"
    unfolding outcomes_Inr_iff [symmetric] MultiScales_outcomes [OF D M x]
    by (cases ?o1; cases ?o2; cases ?o3; cases ?o4) simp_all
  also have "\<dots> = (chans (s ! bands) = Q \<and> 631 \<le> time (s ! bands) \<and>
      chans (s ! audio) = 1 \<and> 8 \<le> time (s ! audio))"
    unfolding outcome_Inr_iff EBEN_returns_iff [OF D(1) x(1)] EBEN_returns_iff [OF D(2) x(1)]
      EBEN_returns_iff [OF D(3) x(1)] MelGAN_returns_iff [OF D(4) x(2)]
    by auto
  finally show ?thesis .
qed

lemma init_M4:
  "DiscriminatorMultiScales_init wb wm 4 = Inr (projr (DiscriminatorMultiScales_init wb wm 4))"
  by (simp add: DiscriminatorMultiScales_init_eq)

lemma forward_modules_hd:
  assumes fr: "list_all fresh ms" and ne: "ms \<noteq> []"
    and R: "forward_modules K ms [x] s = Inr (E, s')"
  shows "E ! 0 = x" "E \<noteq> []"
proof -
  note r = forward_modules_result [OF fr ne R]
  from r(5) show "E \<noteq> []" by auto
  with r(3) show "E ! 0 = x" by (simp add: hd_conv_nth)
qed

lemma MultiScales_forward_refs:
  assumes init: "DiscriminatorMultiScales_init wb wm Q = Inr M"
    and x: "bands < length s" "audio < length s"
    and R: "DiscriminatorMultiScales_forward K M bands audio s = Inr (EE, s')"
  shows "length EE = 4" "list_all (list_all (\<lambda>a. a < length s')) EE"
    "map (\<lambda>E. E ! 0) EE = [bands, bands, bands, audio]"
    "map (\<lambda>E. deref s' E ! 0) EE = [s ! bands, s ! bands, s ! bands, s ! audio]"
    "length s \<le> length s'" "\<And>a. a < length s \<Longrightarrow> s' ! a = s ! a"
proof -
  from init obtain D1 D2 D3 G where D:
    "DiscriminatorEBEN_init (wb 1) 1 Q = Inr D1"
    "DiscriminatorEBEN_init (wb 2) 2 Q = Inr D2"
    "DiscriminatorEBEN_init (wb 3) 3 Q = Inr D3"
    "DiscriminatorMelGAN_init wm = Inr G"
    and M: "pqmf_discriminators M = [D1, D2, D3]" "melgan_discriminator M = G"
    by (rule DiscriminatorMultiScales_init_Inr)
  from D M x R obtain E1 s1 E2 s2 E3 s3 E4 where r:
    "DiscriminatorEBEN_forward K D1 bands s = Inr (E1, s1)"
    "DiscriminatorEBEN_forward K D2 bands s1 = Inr (E2, s2)"
    "DiscriminatorEBEN_forward K D3 bands s2 = Inr (E3, s3)"
    "DiscriminatorMelGAN_forward K G audio s3 = Inr (E4, s')"
    "EE = [E1, E2, E3, E4]"
    and fr: "\<And>a. a < length s \<Longrightarrow> s' ! a = s ! a"
    by (rule MultiScales_forward_Inr) blast
  note st1 = EBEN_forward_store [OF D(1) r(1)]
  note st2 = EBEN_forward_store [OF D(2) r(2)]
  note st3 = EBEN_forward_store [OF D(3) r(3)]
  note st4 = MelGAN_forward_store [OF D(4) r(4)]
  from r(5) show "length EE = 4" by simp
  have "list_all (\<lambda>a. a < length s') E1" "list_all (\<lambda>a. a < length s') E2"
    "list_all (\<lambda>a. a < length s') E3"
    using st1(4) st2(4) st3(4) st2(3) st3(3) st4(3) by (auto simp: list_all_iff)
  with st4(4) r(5) show "list_all (list_all (\<lambda>a. a < length s')) EE" by simp
  note h = forward_modules_hd(1) [OF EBEN_modules_fresh(1,2) [OF D(1)] r(1) [unfolded DiscriminatorEBEN_forward_def]]
      forward_modules_hd(1) [OF EBEN_modules_fresh(1,2) [OF D(2)] r(2) [unfolded DiscriminatorEBEN_forward_def]]
      forward_modules_hd(1) [OF EBEN_modules_fresh(1,2) [OF D(3)] r(3) [unfolded DiscriminatorEBEN_forward_def]]
      forward_modules_hd(1) [OF MelGAN_modules_fresh(1,2) [OF D(4)] r(4) [unfolded DiscriminatorMelGAN_forward_def]]
  note ne = forward_modules_hd(2) [OF EBEN_modules_fresh(1,2) [OF D(1)] r(1) [unfolded DiscriminatorEBEN_forward_def]]
      forward_modules_hd(2) [OF EBEN_modules_fresh(1,2) [OF D(2)] r(2) [unfolded DiscriminatorEBEN_forward_def]]
      forward_modules_hd(2) [OF EBEN_modules_fresh(1,2) [OF D(3)] r(3) [unfolded DiscriminatorEBEN_forward_def]]
      forward_modules_hd(2) [OF MelGAN_modules_fresh(1,2) [OF D(4)] r(4) [unfolded DiscriminatorMelGAN_forward_def]]
  from h r(5) show "map (\<lambda>E. E ! 0) EE = [bands, bands, bands, audio]" by simp
  have "\<And>E. E \<noteq> [] \<Longrightarrow> deref s' E ! 0 = s' ! (E ! 0)"
    by (simp add: deref_def)
  with h ne r(5) fr x
  show "map (\<lambda>E. deref s' E ! 0) EE = [s ! bands, s ! bands, s ! bands, s ! audio]"
    by simp
  from st1(3) st2(3) st3(3) st4(3) show "length s \<le> length s'" by simp
  show "\<And>a. a < length s \<Longrightarrow> s' ! a = s ! a" by (rule fr)
qed

lemma module_forward_shape:
  assumes "fresh m" "x < length s"
  shows "(\<exists>y s'. module_forward K m x s = Inr (y, s')) =
           (\<exists>u. module_shape m (shape (s ! x)) = Inr u)"
    "module_forward K m x s = Inr (y, s') \<Longrightarrow> module_shape m (shape (s ! x)) = Inr (shape (s' ! y))"
proof -
  note f = module_forward_frame [OF assms, of K]
  note a = module_apply_shape [of K m "s ! x"]
  show "(\<exists>y s'. module_forward K m x s = Inr (y, s')) =
           (\<exists>u. module_shape m (shape (s ! x)) = Inr u)"
    using f a by (cases "module_apply K m (s ! x)"; cases "module_shape m (shape (s ! x))") auto
  show "module_forward K m x s = Inr (y, s') \<Longrightarrow>
        module_shape m (shape (s ! x)) = Inr (shape (s' ! y))"
    using f a by (cases "module_apply K m (s ! x)"; cases "module_shape m (shape (s ! x))") auto
qed

lemma EBEN_first_block:
  assumes init: "DiscriminatorEBEN_init w d Q = Inr D"
  shows "fresh (DiscriminatorEBEN.discriminator D ! 0)"
    "module_shape (DiscriminatorEBEN.discriminator D ! 0) (b, c, n) = Inr u \<longleftrightarrow>
       c = Q \<and> 1 \<le> d \<and> 2 \<le> n \<and> 2 * d < n + 4 \<and> u = (b, 80, n + 4 - 2 * d)"
proof -
  note D = DiscriminatorEBEN_init_Inr [OF init]
  show "fresh (DiscriminatorEBEN.discriminator D ! 0)" by (simp add: D(4))
  show "module_shape (DiscriminatorEBEN.discriminator D ! 0) (b, c, n) = Inr u \<longleftrightarrow>
       c = Q \<and> 1 \<le> d \<and> 2 \<le> n \<and> 2 * d < n + 4 \<and> u = (b, 80, n + 4 - 2 * d)"
    using D(1) by (simp add: D(4) block_iffs del: module_shape.simps) (safe; simp; arith)
qed

subsection \<open>Closed forms of the temporal lengths\<close>

lemma ceiling_32: "\<lceil>(real n + 2) / 32\<rceil> = int ((n + 33) div 32)"
proof -
  define q r where "q = (n + 33) div 32" and "r = (n + 33) mod 32"
  have "n + 33 = 32 * q + r" and r: "r < 32" by (simp_all add: q_def r_def)
  then have "real (n + 33) = real (32 * q + r)" by simp
  then have e: "real n + 33 = 32 * real q + real r" by simp
  have "\<lceil>(real n + 2) / 32\<rceil> = int q"
  proof (rule ceiling_unique)
    show "of_int (int q) - 1 < (real n + 2) / 32" using e r by simp
    show "(real n + 2) / 32 \<le> of_int (int q)" using e r by simp
  qed
  then show ?thesis by (simp add: q_def)
qed

lemma ceiling_256: "\<lceil>real n / 256\<rceil> = int ((n + 255) div 256)"
proof -
  define q r where "q = (n + 255) div 256" and "r = (n + 255) mod 256"
  have "n + 255 = 256 * q + r" and r: "r < 256" by (simp_all add: q_def r_def)
  then have "real (n + 255) = real (256 * q + r)" by simp
  then have e: "real n + 255 = 256 * real q + real r" by simp
  have "\<lceil>real n / 256\<rceil> = int q"
  proof (rule ceiling_unique)
    show "of_int (int q) - 1 < real n / 256" using e r by simp
    show "real n / 256 \<le> of_int (int q)" using e r by simp
  qed
  then show ?thesis by (simp add: q_def)
qed

lemma EBEN_outcome_shapes:
  assumes init: "DiscriminatorEBEN_init w d Q = Inr D" and x: "bands < length s"
    and v: "shape (s ! bands) = (b, Q, n)" "1 \<le> d" "2 \<le> n" "316 * d \<le> n + 317"
  shows "\<exists>ts. outcome (DiscriminatorEBEN_forward K D bands s) = Inr ts \<and> map shape ts =
     [(b, Q, n), (b, 80, n + 4 - 2 * d), (b, 160, (n + 11 - 8 * d) div 2),
      (b, 320, (n + 25 - 20 * d) div 4), (b, 480, (n + 53 - 44 * d) div 8),
      (b, 640, (n + 109 - 92 * d) div 16), (b, 960, (n + 221 - 188 * d) div 32),
      (b, 960, (n + 221 - 188 * d) div 32 + 4 - 4 * d),
      (b, 1, (n + 221 - 188 * d) div 32 + 4 - 4 * d)]"
proof -
  from v(1) have c: "chans (s ! bands) = Q" "time (s ! bands) = n" by (simp_all add: shape_def)
  obtain E s' where R: "DiscriminatorEBEN_forward K D bands s = Inr (E, s')"
    using EBEN_returns_iff [OF init x, of K] c v(2-4) by auto
  from EBEN_forward_shapes(1) [OF init R v(1)] R show ?thesis by simp
qed

lemma MelGAN_outcome_shapes:
  assumes init: "DiscriminatorMelGAN_init w = Inr G" and x: "audio < length s"
    and v: "shape (s ! audio) = (b, 1, n)" "8 \<le> n"
  shows "\<exists>ts. outcome (DiscriminatorMelGAN_forward K G audio s) = Inr ts \<and> map shape ts =
     [(b, 1, n), (b, 16, n), (b, 64, (n + 3) div 4), (b, 256, (n + 15) div 16),
      (b, 1024, (n + 63) div 64), (b, 1024, (n + 255) div 256),
      (b, 1024, (n + 255) div 256), (b, 1, (n + 255) div 256)]"
proof -
  from v(1) have c: "chans (s ! audio) = 1" "time (s ! audio) = n" by (simp_all add: shape_def)
  obtain E s' where R: "DiscriminatorMelGAN_forward K G audio s = Inr (E, s')"
    using MelGAN_returns_iff [OF init x, of K] c v(2) by auto
  from MelGAN_forward_shapes(1) [OF init R v(1)] R show ?thesis by simp
qed

lemma MultiScales_all_shapes:
  assumes init: "DiscriminatorMultiScales_init wb wm Q = Inr M"
    and x: "bands < length s" "audio < length s"
    and v: "shape (s ! bands) = (b, Q, n)" "631 \<le> n" "shape (s ! audio) = (b', 1, n')" "8 \<le> n'"
  shows "all_shapes (outcomes (DiscriminatorMultiScales_forward K M bands audio s)) =
     Inr [[(b, Q, n), (b, 80, n + 4 - 2 * 1), (b, 160, (n + 11 - 8 * 1) div 2),
           (b, 320, (n + 25 - 20 * 1) div 4), (b, 480, (n + 53 - 44 * 1) div 8),
           (b, 640, (n + 109 - 92 * 1) div 16), (b, 960, (n + 221 - 188 * 1) div 32),
           (b, 960, (n + 221 - 188 * 1) div 32 + 4 - 4 * 1),
           (b, 1, (n + 221 - 188 * 1) div 32 + 4 - 4 * 1)],
          [(b, Q, n), (b, 80, n + 4 - 2 * 2), (b, 160, (n + 11 - 8 * 2) div 2),
           (b, 320, (n + 25 - 20 * 2) div 4), (b, 480, (n + 53 - 44 * 2) div 8),
           (b, 640, (n + 109 - 92 * 2) div 16), (b, 960, (n + 221 - 188 * 2) div 32),
           (b, 960, (n + 221 - 188 * 2) div 32 + 4 - 4 * 2),
           (b, 1, (n + 221 - 188 * 2) div 32 + 4 - 4 * 2)],
          [(b, Q, n), (b, 80, n + 4 - 2 * 3), (b, 160, (n + 11 - 8 * 3) div 2),
           (b, 320, (n + 25 - 20 * 3) div 4), (b, 480, (n + 53 - 44 * 3) div 8),
           (b, 640, (n + 109 - 92 * 3) div 16), (b, 960, (n + 221 - 188 * 3) div 32),
           (b, 960, (n + 221 - 188 * 3) div 32 + 4 - 4 * 3),
           (b, 1, (n + 221 - 188 * 3) div 32 + 4 - 4 * 3)],
          [(b', 1, n'), (b', 16, n'), (b', 64, (n' + 3) div 4), (b', 256, (n' + 15) div 16),
           (b', 1024, (n' + 63) div 64), (b', 1024, (n' + 255) div 256),
           (b', 1024, (n' + 255) div 256), (b', 1, (n' + 255) div 256)]]"
proof -
  from init obtain D1 D2 D3 G where D:
    "DiscriminatorEBEN_init (wb 1) 1 Q = Inr D1"
    "DiscriminatorEBEN_init (wb 2) 2 Q = Inr D2"
    "DiscriminatorEBEN_init (wb 3) 3 Q = Inr D3"
    "DiscriminatorMelGAN_init wm = Inr G"
    and M: "pqmf_discriminators M = [D1, D2, D3]" "melgan_discriminator M = G"
    by (rule DiscriminatorMultiScales_init_Inr)
  from v(2) have n: "2 \<le> n" "316 * 1 \<le> n + 317" "316 * 2 \<le> n + 317" "316 * 3 \<le> n + 317"
    by simp_all
  from EBEN_outcome_shapes [OF D(1) x(1) v(1) _ n(1) n(2), of K]
  obtain t1 where t1: "outcome (DiscriminatorEBEN_forward K D1 bands s) = Inr t1"
    "map shape t1 = [(b, Q, n), (b, 80, n + 4 - 2 * 1), (b, 160, (n + 11 - 8 * 1) div 2),
           (b, 320, (n + 25 - 20 * 1) div 4), (b, 480, (n + 53 - 44 * 1) div 8),
           (b, 640, (n + 109 - 92 * 1) div 16), (b, 960, (n + 221 - 188 * 1) div 32),
           (b, 960, (n + 221 - 188 * 1) div 32 + 4 - 4 * 1),
           (b, 1, (n + 221 - 188 * 1) div 32 + 4 - 4 * 1)]"
    by auto
  from EBEN_outcome_shapes [OF D(2) x(1) v(1) _ n(1) n(3), of K]
  obtain t2 where t2: "outcome (DiscriminatorEBEN_forward K D2 bands s) = Inr t2"
    "map shape t2 = [(b, Q, n), (b, 80, n + 4 - 2 * 2), (b, 160, (n + 11 - 8 * 2) div 2),
           (b, 320, (n + 25 - 20 * 2) div 4), (b, 480, (n + 53 - 44 * 2) div 8),
           (b, 640, (n + 109 - 92 * 2) div 16), (b, 960, (n + 221 - 188 * 2) div 32),
           (b, 960, (n + 221 - 188 * 2) div 32 + 4 - 4 * 2),
           (b, 1, (n + 221 - 188 * 2) div 32 + 4 - 4 * 2)]"
    by auto
  from EBEN_outcome_shapes [OF D(3) x(1) v(1) _ n(1) n(4), of K]
  obtain t3 where t3: "outcome (DiscriminatorEBEN_forward K D3 bands s) = Inr t3"
    "map shape t3 = [(b, Q, n), (b, 80, n + 4 - 2 * 3), (b, 160, (n + 11 - 8 * 3) div 2),
           (b, 320, (n + 25 - 20 * 3) div 4), (b, 480, (n + 53 - 44 * 3) div 8),
           (b, 640, (n + 109 - 92 * 3) div 16), (b, 960, (n + 221 - 188 * 3) div 32),
           (b, 960, (n + 221 - 188 * 3) div 32 + 4 - 4 * 3),
           (b, 1, (n + 221 - 188 * 3) div 32 + 4 - 4 * 3)]"
    by auto
  from MelGAN_outcome_shapes [OF D(4) x(2) v(3,4), of K]
  obtain t4 where t4: "outcome (DiscriminatorMelGAN_forward K G audio s) = Inr t4"
    "map shape t4 = [(b', 1, n'), (b', 16, n'), (b', 64, (n' + 3) div 4), (b', 256, (n' + 15) div 16),
           (b', 1024, (n' + 63) div 64), (b', 1024, (n' + 255) div 256),
           (b', 1024, (n' + 255) div 256), (b', 1, (n' + 255) div 256)]"
    by auto
  have "outcomes (DiscriminatorMultiScales_forward K M bands audio s) = Inr [t1, t2, t3, t4]"
    unfolding MultiScales_outcomes [OF D M x] t1(1) t2(1) t3(1) t4(1) by simp
  then show ?thesis
    unfolding all_shapes_def t1(2) [symmetric] t2(2) [symmetric] t3(2) [symmetric] t4(2) [symmetric]
    by simp
qed

lemma init_4u: "DiscriminatorEBEN_init unit_weights d 4 = Inr (projr (DiscriminatorEBEN_init unit_weights d 4))"
  by (rule init_4)

lemma EBEN_final_time:
  assumes init: "DiscriminatorEBEN_init w d Q = Inr D"
    and R: "DiscriminatorEBEN_forward K D bands s = Inr (E, s')"
  shows "time (last (deref s' E)) = (time (s ! bands) + 221 - 188 * d) div 32 + 4 - 4 * d"
proof -
  note sh = EBEN_forward_shapes(1) [OF init R shape_triple]
  from sh have ne: "deref s' E \<noteq> []" by auto
  have "shape (last (deref s' E)) = last (map shape (deref s' E))"
    using ne by (simp add: last_map)
  with sh show ?thesis by (simp add: shape_def)
qed

lemma MelGAN_final_time:
  assumes init: "DiscriminatorMelGAN_init w = Inr G"
    and R: "DiscriminatorMelGAN_forward K G audio s = Inr (E, s')"
  shows "time (last (deref s' E)) = (time (s ! audio) + 255) div 256"
proof -
  note sh = MelGAN_forward_shapes(1) [OF init R shape_triple]
  from sh have ne: "deref s' E \<noteq> []" by auto
  have "shape (last (deref s' E)) = last (map shape (deref s' E))"
    using ne by (simp add: last_map)
  with sh show ?thesis by (simp add: shape_def)
qed

lemma init_M4u:
  "DiscriminatorMultiScales_init unit_band_weights unit_weights 4 =
     Inr (projr (DiscriminatorMultiScales_init unit_band_weights unit_weights 4))"
  by (rule init_M4)

lemma EBEN_shapes_1024:
  assumes "1 \<le> d" "316 * d \<le> 1341"
  shows "shapes (outcome (DiscriminatorEBEN_forward shape_only
      (projr (DiscriminatorEBEN_init unit_weights d 4)) 0 [signal 2 4 1024])) =
     Inr [(2, 4, 1024), (2, 80, 1028 - 2 * d), (2, 160, (1035 - 8 * d) div 2),
      (2, 320, (1049 - 20 * d) div 4), (2, 480, (1077 - 44 * d) div 8),
      (2, 640, (1133 - 92 * d) div 16), (2, 960, (1245 - 188 * d) div 32),
      (2, 960, (1245 - 188 * d) div 32 + 4 - 4 * d),
      (2, 1, (1245 - 188 * d) div 32 + 4 - 4 * d)]"
proof -
  have a: "(0::nat) < length [signal 2 4 1024]" by simp
  have sh: "shape ([signal 2 4 1024] ! 0) = (2, 4, 1024)" by (simp add: signal_def shape_def)
  from assms EBEN_outcome_shapes [OF init_4u a sh, of d shape_only]
  show ?thesis by (auto simp: shapes_def)
qed

section \<open>The claims\<close>

text \<open>
  C7. Constructing a band discriminator, and so the ensemble, fails exactly when \<open>Q\<close> does
  not divide every channel count 80, 160, 320, 480, 640 and 960 of the grouped convolutions
  (its own input count \<open>Q\<close> it always divides). The failure is an error of the constructor
  of a convolution: the groups are not positive (\<open>Q = 0\<close>), or the output channels are
  not divisible by the groups.
\<close>

theorem construction_fails_iff_q_does_not_divide:
  "isl (DiscriminatorEBEN_init w dila Q) =
     (\<not> (Q dvd 80 \<and> Q dvd 160 \<and> Q dvd 320 \<and> Q dvd 480 \<and> Q dvd 640 \<and> Q dvd 960)) \<and>
   isl (DiscriminatorMultiScales_init wb wm Q) =
     (\<not> (Q dvd 80 \<and> Q dvd 160 \<and> Q dvd 320 \<and> Q dvd 480 \<and> Q dvd 640 \<and> Q dvd 960)) \<and>
   (DiscriminatorEBEN_init w dila Q = Inl GroupsNotPositive) = (Q = 0) \<and>
   (DiscriminatorEBEN_init w dila Q = Inl OutChannelsNotDivisible) = (Q \<noteq> 0 \<and> \<not> Q dvd 80) \<and>
   (DiscriminatorMultiScales_init wb wm Q = Inl GroupsNotPositive) = (Q = 0) \<and>
   (DiscriminatorMultiScales_init wb wm Q = Inl OutChannelsNotDivisible) = (Q \<noteq> 0 \<and> \<not> Q dvd 80)"
  unfolding dvd_all_iff
  by (simp add: DiscriminatorEBEN_init_eq DiscriminatorMultiScales_init_eq)

theorem construction_witness:
  "\<not> isl (DiscriminatorEBEN_init (\<lambda>k. ()) 1 4) \<and>
   \<not> isl (DiscriminatorMultiScales_init (\<lambda>d k. ()) (\<lambda>k. ()) 4) \<and>
   DiscriminatorEBEN_init (\<lambda>k. ()) 1 3 = Inl OutChannelsNotDivisible \<and>
   DiscriminatorMultiScales_init (\<lambda>d k. ()) (\<lambda>k. ()) 0 = Inl GroupsNotPositive"
  using construction_fails_iff_q_does_not_divide [of "\<lambda>k. ()" 1 4 "\<lambda>d k. ()" "\<lambda>k. ()"]
    construction_fails_iff_q_does_not_divide [of "\<lambda>k. ()" 1 3 "\<lambda>d k. ()" "\<lambda>k. ()"]
    construction_fails_iff_q_does_not_divide [of "\<lambda>k. ()" 1 0 "\<lambda>d k. ()" "\<lambda>k. ()"]
  by simp

text \<open>
  C4. On every input it accepts, the band discriminator returns exactly 9 tensors: its
  input as element 0, followed by the outputs of its 8 blocks, each block applied to the
  output of the one before. The full-band discriminator returns exactly 8 tensors: its
  input followed by the outputs of its 7 blocks. The inputs accepted are spelled out: the
  right number of channels, and a temporal length that no padding or kernel exceeds.
\<close>

theorem evaluate_returns_input_and_block_outputs:
  assumes "DiscriminatorEBEN_init w dila Q = Inr D" "DiscriminatorMelGAN_init w' = Inr G"
    and "bands < length s" "audio < length s"
  shows
   "((\<exists>E s'. DiscriminatorEBEN_forward K D bands s = Inr (E, s')) =
       (chans (s ! bands) = Q \<and> 1 \<le> dila \<and> 2 \<le> time (s ! bands) \<and>
        316 * dila \<le> time (s ! bands) + 317)) \<and>
    (\<forall>E s'. DiscriminatorEBEN_forward K D bands s = Inr (E, s') \<longrightarrow>
       length E = 9 \<and> E ! 0 = bands \<and> deref s' E ! 0 = s ! bands \<and>
       length (DiscriminatorEBEN.discriminator D) = 8 \<and>
       modules_apply K (DiscriminatorEBEN.discriminator D) (s ! bands) = Inr (tl (deref s' E))) \<and>
    ((\<exists>E s'. DiscriminatorMelGAN_forward K G audio s = Inr (E, s')) =
       (chans (s ! audio) = 1 \<and> 8 \<le> time (s ! audio))) \<and>
    (\<forall>E s'. DiscriminatorMelGAN_forward K G audio s = Inr (E, s') \<longrightarrow>
       length E = 8 \<and> E ! 0 = audio \<and> deref s' E ! 0 = s ! audio \<and>
       length (DiscriminatorMelGAN.discriminator G) = 7 \<and>
       modules_apply K (DiscriminatorMelGAN.discriminator G) (s ! audio) = Inr (tl (deref s' E)))"
proof (intro conjI allI impI)
  show "(\<exists>E s'. DiscriminatorEBEN_forward K D bands s = Inr (E, s')) =
       (chans (s ! bands) = Q \<and> 1 \<le> dila \<and> 2 \<le> time (s ! bands) \<and>
        316 * dila \<le> time (s ! bands) + 317)"
    by (rule EBEN_returns_iff [OF assms(1,3)])
  show "(\<exists>E s'. DiscriminatorMelGAN_forward K G audio s = Inr (E, s')) =
       (chans (s ! audio) = 1 \<and> 8 \<le> time (s ! audio))"
    by (rule MelGAN_returns_iff [OF assms(2,4)])
next
  fix E s' assume R: "DiscriminatorEBEN_forward K D bands s = Inr (E, s')"
  note fr = EBEN_modules_fresh [OF assms(1)]
  note r = forward_modules_result [OF fr(1,2) R [unfolded DiscriminatorEBEN_forward_def]]
  from r(5) fr(3) show "length E = 9" by simp
  then have "E \<noteq> []" by auto
  with r(3) show "E ! 0 = bands" by (simp add: hd_conv_nth)
  show "deref s' E ! 0 = s ! bands" by (rule r(4))
  show "length (DiscriminatorEBEN.discriminator D) = 8" by (rule fr(3))
  show "modules_apply K (DiscriminatorEBEN.discriminator D) (s ! bands) = Inr (tl (deref s' E))"
    by (rule r(2))
next
  fix E s' assume R: "DiscriminatorMelGAN_forward K G audio s = Inr (E, s')"
  note fr = MelGAN_modules_fresh [OF assms(2)]
  note r = forward_modules_result [OF fr(1,2) R [unfolded DiscriminatorMelGAN_forward_def]]
  from r(5) fr(3) show "length E = 8" by simp
  then have "E \<noteq> []" by auto
  with r(3) show "E ! 0 = audio" by (simp add: hd_conv_nth)
  show "deref s' E ! 0 = s ! audio" by (rule r(4))
  show "length (DiscriminatorMelGAN.discriminator G) = 7" by (rule fr(3))
  show "modules_apply K (DiscriminatorMelGAN.discriminator G) (s ! audio) = Inr (tl (deref s' E))"
    by (rule r(2))
qed

theorem evaluate_returns_witness:
  "(\<exists>E s'. DiscriminatorEBEN_forward shape_only (projr (DiscriminatorEBEN_init (\<lambda>k. ()) 1 4)) 0
       [signal 2 4 1024, signal 2 1 4096] = Inr (E, s') \<and> length E = 9 \<and> E ! 0 = 0) \<and>
   (\<exists>E s'. DiscriminatorMelGAN_forward shape_only (projr (DiscriminatorMelGAN_init (\<lambda>k. ()))) 1
       [signal 2 4 1024, signal 2 1 4096] = Inr (E, s') \<and> length E = 8 \<and> E ! 0 = 1)"
proof -
  have a: "(0::nat) < length [signal 2 4 1024, signal 2 1 4096]"
    "(1::nat) < length [signal 2 4 1024, signal 2 1 4096]" by simp_all
  note t = evaluate_returns_input_and_block_outputs [where K = shape_only and Q = 4
      and w = "\<lambda>k. ()" and w' = "\<lambda>k. ()" and dila = 1 and bands = 0 and audio = 1
      and s = "[signal 2 4 1024, signal 2 1 4096]", OF init_4 init_melgan a]
  from t have "\<exists>E s'. DiscriminatorEBEN_forward shape_only (projr (DiscriminatorEBEN_init (\<lambda>k. ()) 1 4)) 0
       [signal 2 4 1024, signal 2 1 4096] = Inr (E, s')"
    by (simp add: signal_def)
  moreover from t have "\<exists>E s'. DiscriminatorMelGAN_forward shape_only (projr (DiscriminatorMelGAN_init (\<lambda>k. ()))) 1
       [signal 2 4 1024, signal 2 1 4096] = Inr (E, s')"
    by (simp add: signal_def)
  ultimately show ?thesis using t by blast
qed

text \<open>
  C6. The channel counts of the tensors a discriminator returns are those of its table, in
  order: \<open>Q\<close>, 80, 160, 320, 480, 640, 960, 960, 1 for the band discriminator (of any
  dilation) and 1, 16, 64, 256, 1024, 1024, 1024, 1 for the full-band discriminator. So
  the last tensor of every sequence, also of the four the ensemble returns, has exactly
  one channel.
\<close>

theorem channel_counts_follow_the_tables:
  assumes "DiscriminatorEBEN_init w dila Q = Inr D" "DiscriminatorMelGAN_init w' = Inr G"
    and "DiscriminatorMultiScales_init wb wm Q = Inr M"
    and "bands < length s" "audio < length s"
  shows
   "(\<forall>E s'. DiscriminatorEBEN_forward K D bands s = Inr (E, s') \<longrightarrow>
       map chans (deref s' E) = [Q, 80, 160, 320, 480, 640, 960, 960, 1] \<and>
       chans (last (deref s' E)) = 1) \<and>
    (\<forall>E s'. DiscriminatorMelGAN_forward K G audio s = Inr (E, s') \<longrightarrow>
       map chans (deref s' E) = [1, 16, 64, 256, 1024, 1024, 1024, 1] \<and>
       chans (last (deref s' E)) = 1) \<and>
    (\<forall>EE s'. DiscriminatorMultiScales_forward K M bands audio s = Inr (EE, s') \<longrightarrow>
       map (\<lambda>E. map chans (deref s' E)) EE =
         [[Q, 80, 160, 320, 480, 640, 960, 960, 1],
          [Q, 80, 160, 320, 480, 640, 960, 960, 1],
          [Q, 80, 160, 320, 480, 640, 960, 960, 1],
          [1, 16, 64, 256, 1024, 1024, 1024, 1]] \<and>
       map (\<lambda>E. chans (last (deref s' E))) EE = [1, 1, 1, 1])"
proof (intro conjI allI impI)
  fix E s' assume R: "DiscriminatorEBEN_forward K D bands s = Inr (E, s')"
  show c: "map chans (deref s' E) = [Q, 80, 160, 320, 480, 640, 960, 960, 1]"
    by (rule EBEN_forward_chans [OF assms(1) R])
  show "chans (last (deref s' E)) = 1" using last_chans [OF c] by simp
next
  fix E s' assume R: "DiscriminatorMelGAN_forward K G audio s = Inr (E, s')"
  show c: "map chans (deref s' E) = [1, 16, 64, 256, 1024, 1024, 1024, 1]"
    by (rule MelGAN_forward_chans [OF assms(2) R])
  show "chans (last (deref s' E)) = 1" using last_chans [OF c] by simp
next
  fix EE s' assume R: "DiscriminatorMultiScales_forward K M bands audio s = Inr (EE, s')"
  from assms(3) obtain D1 D2 D3 G' where D:
    "DiscriminatorEBEN_init (wb 1) 1 Q = Inr D1"
    "DiscriminatorEBEN_init (wb 2) 2 Q = Inr D2"
    "DiscriminatorEBEN_init (wb 3) 3 Q = Inr D3"
    "DiscriminatorMelGAN_init wm = Inr G'"
    and M: "pqmf_discriminators M = [D1, D2, D3]" "melgan_discriminator M = G'"
    by (rule DiscriminatorMultiScales_init_Inr)
  from D M assms(4,5) R obtain E1 s1 E2 s2 E3 s3 E4 where r:
    "DiscriminatorEBEN_forward K D1 bands s = Inr (E1, s1)"
    "DiscriminatorEBEN_forward K D2 bands s1 = Inr (E2, s2)"
    "DiscriminatorEBEN_forward K D3 bands s2 = Inr (E3, s3)"
    "DiscriminatorMelGAN_forward K G' audio s3 = Inr (E4, s')"
    "EE = [E1, E2, E3, E4]"
    "deref s' E1 = deref s1 E1" "deref s' E2 = deref s2 E2" "deref s' E3 = deref s3 E3"
    by (rule MultiScales_forward_Inr)
  note c = EBEN_forward_chans [OF D(1) r(1)] EBEN_forward_chans [OF D(2) r(2)]
    EBEN_forward_chans [OF D(3) r(3)] MelGAN_forward_chans [OF D(4) r(4)]
  from c r(5-8) show "map (\<lambda>E. map chans (deref s' E)) EE =
         [[Q, 80, 160, 320, 480, 640, 960, 960, 1],
          [Q, 80, 160, 320, 480, 640, 960, 960, 1],
          [Q, 80, 160, 320, 480, 640, 960, 960, 1],
          [1, 16, 64, 256, 1024, 1024, 1024, 1]]"
    by simp
  from last_chans [OF c(1)] last_chans [OF c(2)] last_chans [OF c(3)] last_chans [OF c(4)] r(5-8)
  show "map (\<lambda>E. chans (last (deref s' E))) EE = [1, 1, 1, 1]"
    by simp
qed

theorem channel_counts_witness:
  "map_sum id (map chans)
     (outcome (DiscriminatorEBEN_forward shape_only (projr (DiscriminatorEBEN_init (\<lambda>k. ()) 1 4)) 0
        [signal 2 4 1024, signal 2 1 4096])) =
     Inr [4, 80, 160, 320, 480, 640, 960, 960, 1] \<and>
   map_sum id (map chans)
     (outcome (DiscriminatorMelGAN_forward shape_only (projr (DiscriminatorMelGAN_init (\<lambda>k. ()))) 1
        [signal 2 4 1024, signal 2 1 4096])) =
     Inr [1, 16, 64, 256, 1024, 1024, 1024, 1] \<and>
   map_sum id (map (map chans))
     (outcomes (DiscriminatorMultiScales_forward shape_only
        (projr (DiscriminatorMultiScales_init (\<lambda>d k. ()) (\<lambda>k. ()) 4)) 0 1
        [signal 2 4 1024, signal 2 1 4096])) =
     Inr [[4, 80, 160, 320, 480, 640, 960, 960, 1],
          [4, 80, 160, 320, 480, 640, 960, 960, 1],
          [4, 80, 160, 320, 480, 640, 960, 960, 1],
          [1, 16, 64, 256, 1024, 1024, 1024, 1]]"
proof -
  let ?s = "[signal 2 4 1024, signal 2 1 4096]"
  have a: "(0::nat) < length ?s" "(1::nat) < length ?s" by simp_all
  note t = channel_counts_follow_the_tables [where K = shape_only and Q = 4
      and w = "\<lambda>k. ()" and w' = "\<lambda>k. ()" and dila = 1 and bands = 0 and audio = 1
      and wb = "\<lambda>d k. ()" and wm = "\<lambda>k. ()"
      and s = ?s, OF init_4 init_melgan init_M4 a]
  obtain E1 s1 where r1: "DiscriminatorEBEN_forward shape_only
      (projr (DiscriminatorEBEN_init (\<lambda>k. ()) 1 4)) 0 ?s = Inr (E1, s1)"
    using EBEN_returns_iff [OF init_4 [of "\<lambda>k. ()" 1] a(1), where K = shape_only]
    by (auto simp: signal_def)
  obtain E2 s2 where r2: "DiscriminatorMelGAN_forward shape_only
      (projr (DiscriminatorMelGAN_init (\<lambda>k. ()))) 1 ?s = Inr (E2, s2)"
    using MelGAN_returns_iff [OF init_melgan [of "\<lambda>k. ()"] a(2), where K = shape_only]
    by (auto simp: signal_def)
  obtain EE s3 where r3: "DiscriminatorMultiScales_forward shape_only
        (projr (DiscriminatorMultiScales_init (\<lambda>d k. ()) (\<lambda>k. ()) 4)) 0 1 ?s = Inr (EE, s3)"
    using MultiScales_returns_iff [OF init_M4 [of "\<lambda>d k. ()" "\<lambda>k. ()"] a, where K = shape_only]
    by (auto simp: signal_def)
  from t r1 r2 r3 show ?thesis by (simp add: comp_def)
qed

text \<open>
  C10. A call of a discriminator, and of the ensemble, leaves every tensor that existed
  before the call as it was, in particular its inputs: the store after the call is the
  store before it with new tensors appended. Element 0 of each returned sequence is the
  reference the caller passed, and every other element is a tensor made during the call.
  The in-place activations therefore only ever overwrite tensors made inside the call.
\<close>

theorem evaluate_leaves_inputs_unchanged:
  assumes "DiscriminatorEBEN_init w dila Q = Inr D" "DiscriminatorMelGAN_init w' = Inr G"
    and "DiscriminatorMultiScales_init wb wm Q' = Inr M"
    and "bands < length s" "audio < length s"
  shows
   "(\<forall>E s'. DiscriminatorEBEN_forward K D bands s = Inr (E, s') \<longrightarrow>
       take (length s) s' = s \<and> s' ! bands = s ! bands \<and> E ! 0 = bands \<and>
       list_all (\<lambda>a. length s \<le> a) (tl E)) \<and>
    (\<forall>E s'. DiscriminatorMelGAN_forward K G audio s = Inr (E, s') \<longrightarrow>
       take (length s) s' = s \<and> s' ! audio = s ! audio \<and> E ! 0 = audio \<and>
       list_all (\<lambda>a. length s \<le> a) (tl E)) \<and>
    (\<forall>EE s'. DiscriminatorMultiScales_forward K M bands audio s = Inr (EE, s') \<longrightarrow>
       take (length s) s' = s \<and> s' ! bands = s ! bands \<and> s' ! audio = s ! audio \<and>
       map (\<lambda>E. E ! 0) EE = [bands, bands, bands, audio] \<and>
       list_all (\<lambda>a. length s \<le> a) (concat (map tl EE)))"
proof (intro conjI allI impI)
  fix E s' assume R: "DiscriminatorEBEN_forward K D bands s = Inr (E, s')"
  note fr = EBEN_modules_fresh [OF assms(1)]
  note R' = R [unfolded DiscriminatorEBEN_forward_def]
  show "take (length s) s' = s" by (rule forward_modules_result(6) [OF fr(1,2) R'])
  show "s' ! bands = s ! bands" by (rule EBEN_forward_store(6) [OF assms(1) R assms(4)])
  show "E ! 0 = bands" by (rule forward_modules_hd(1) [OF fr(1,2) R'])
  show "list_all (\<lambda>a. length s \<le> a) (tl E)"
    using forward_modules_result(7) [OF fr(1,2) R'] by (auto simp: list_all_iff)
next
  fix E s' assume R: "DiscriminatorMelGAN_forward K G audio s = Inr (E, s')"
  note fr = MelGAN_modules_fresh [OF assms(2)]
  note R' = R [unfolded DiscriminatorMelGAN_forward_def]
  show "take (length s) s' = s" by (rule forward_modules_result(6) [OF fr(1,2) R'])
  show "s' ! audio = s ! audio" by (rule MelGAN_forward_store(6) [OF assms(2) R assms(5)])
  show "E ! 0 = audio" by (rule forward_modules_hd(1) [OF fr(1,2) R'])
  show "list_all (\<lambda>a. length s \<le> a) (tl E)"
    using forward_modules_result(7) [OF fr(1,2) R'] by (auto simp: list_all_iff)
next
  fix EE s' assume R: "DiscriminatorMultiScales_forward K M bands audio s = Inr (EE, s')"
  from assms(3) obtain D1 D2 D3 G' where D:
    "DiscriminatorEBEN_init (wb 1) 1 Q' = Inr D1"
    "DiscriminatorEBEN_init (wb 2) 2 Q' = Inr D2"
    "DiscriminatorEBEN_init (wb 3) 3 Q' = Inr D3"
    "DiscriminatorMelGAN_init wm = Inr G'"
    and M: "pqmf_discriminators M = [D1, D2, D3]" "melgan_discriminator M = G'"
    by (rule DiscriminatorMultiScales_init_Inr)
  from D M assms(4,5) R obtain E1 s1 E2 s2 E3 s3 E4 where r:
    "DiscriminatorEBEN_forward K D1 bands s = Inr (E1, s1)"
    "DiscriminatorEBEN_forward K D2 bands s1 = Inr (E2, s2)"
    "DiscriminatorEBEN_forward K D3 bands s2 = Inr (E3, s3)"
    "DiscriminatorMelGAN_forward K G' audio s3 = Inr (E4, s')"
    "EE = [E1, E2, E3, E4]"
    and fr: "\<And>a. a < length s \<Longrightarrow> s' ! a = s ! a"
      "list_all (\<lambda>a. length s \<le> a) (tl E1 @ tl E2 @ tl E3 @ tl E4)"
      "take (length s) s' = s"
    by (rule MultiScales_forward_Inr) blast
  show "take (length s) s' = s" by (rule fr(3))
  show "s' ! bands = s ! bands" by (rule fr(1) [OF assms(4)])
  show "s' ! audio = s ! audio" by (rule fr(1) [OF assms(5)])
  show "map (\<lambda>E. E ! 0) EE = [bands, bands, bands, audio]"
    using r(5)
      forward_modules_hd(1) [OF EBEN_modules_fresh(1,2) [OF D(1)] r(1) [unfolded DiscriminatorEBEN_forward_def]]
      forward_modules_hd(1) [OF EBEN_modules_fresh(1,2) [OF D(2)] r(2) [unfolded DiscriminatorEBEN_forward_def]]
      forward_modules_hd(1) [OF EBEN_modules_fresh(1,2) [OF D(3)] r(3) [unfolded DiscriminatorEBEN_forward_def]]
      forward_modules_hd(1) [OF MelGAN_modules_fresh(1,2) [OF D(4)] r(4) [unfolded DiscriminatorMelGAN_forward_def]]
    by simp
  show "list_all (\<lambda>a. length s \<le> a) (concat (map tl EE))"
    using fr(2) r(5) by simp
qed

theorem evaluate_leaves_inputs_witness:
  "(\<exists>E s'. DiscriminatorEBEN_forward shape_only (projr (DiscriminatorEBEN_init (\<lambda>k. ()) 1 4)) 0
       [signal 2 4 1024, signal 2 1 4096] = Inr (E, s') \<and>
       s' ! 0 = signal 2 4 1024 \<and> E ! 0 = 0) \<and>
   (\<exists>E s'. DiscriminatorMelGAN_forward shape_only (projr (DiscriminatorMelGAN_init (\<lambda>k. ()))) 1
       [signal 2 4 1024, signal 2 1 4096] = Inr (E, s') \<and>
       s' ! 1 = signal 2 1 4096 \<and> E ! 0 = 1) \<and>
   (\<exists>EE s'. DiscriminatorMultiScales_forward shape_only
        (projr (DiscriminatorMultiScales_init (\<lambda>d k. ()) (\<lambda>k. ()) 4)) 0 1
        [signal 2 4 1024, signal 2 1 4096] = Inr (EE, s') \<and>
       s' ! 0 = signal 2 4 1024 \<and> s' ! 1 = signal 2 1 4096 \<and> map (\<lambda>E. E ! 0) EE = [0, 0, 0, 1])"
proof -
  let ?s = "[signal 2 4 1024, signal 2 1 4096]"
  have a: "(0::nat) < length ?s" "(1::nat) < length ?s" by simp_all
  note t = evaluate_leaves_inputs_unchanged [where K = shape_only and Q = 4 and Q' = 4
      and w = "\<lambda>k. ()" and w' = "\<lambda>k. ()" and dila = 1 and bands = 0 and audio = 1
      and wb = "\<lambda>d k. ()" and wm = "\<lambda>k. ()"
      and s = ?s, OF init_4 init_melgan init_M4 a]
  obtain E1 s1 where r1: "DiscriminatorEBEN_forward shape_only
      (projr (DiscriminatorEBEN_init (\<lambda>k. ()) 1 4)) 0 ?s = Inr (E1, s1)"
    using EBEN_returns_iff [OF init_4 [of "\<lambda>k. ()" 1] a(1), where K = shape_only]
    by (auto simp: signal_def)
  obtain E2 s2 where r2: "DiscriminatorMelGAN_forward shape_only
      (projr (DiscriminatorMelGAN_init (\<lambda>k. ()))) 1 ?s = Inr (E2, s2)"
    using MelGAN_returns_iff [OF init_melgan [of "\<lambda>k. ()"] a(2), where K = shape_only]
    by (auto simp: signal_def)
  obtain EE s3 where r3: "DiscriminatorMultiScales_forward shape_only
        (projr (DiscriminatorMultiScales_init (\<lambda>d k. ()) (\<lambda>k. ()) 4)) 0 1 ?s = Inr (EE, s3)"
    using MultiScales_returns_iff [OF init_M4 [of "\<lambda>d k. ()" "\<lambda>k. ()"] a, where K = shape_only]
    by (auto simp: signal_def)
  from t r1 r2 r3 show ?thesis by simp
qed

text \<open>
  C5. The ensemble holds the band discriminators of dilation 1, 2 and 3, in this order,
  and the full-band discriminator. What a call returns is the list of what these four
  compute, in this order: each band discriminator from the caller's band tensor (the
  calls before it have not changed it) and the full-band discriminator from the caller's
  audio tensor; the call fails with the first failure among them. A returning call gives
  exactly four sequences; the first three start with the reference to the bands, the
  fourth with the reference to the audio.
\<close>

theorem ensemble_evaluates_four_in_order:
  assumes "DiscriminatorMultiScales_init wb wm Q = Inr M"
    and "bands < length s" "audio < length s"
  shows "\<exists>D1 D2 D3 G.
     DiscriminatorEBEN_init (wb 1) 1 Q = Inr D1 \<and>
     DiscriminatorEBEN_init (wb 2) 2 Q = Inr D2 \<and>
     DiscriminatorEBEN_init (wb 3) 3 Q = Inr D3 \<and>
     DiscriminatorMelGAN_init wm = Inr G \<and>
     pqmf_discriminators M = [D1, D2, D3] \<and>
     map DiscriminatorEBEN.dilation (pqmf_discriminators M) = [1, 2, 3] \<and>
     melgan_discriminator M = G \<and>
     outcomes (DiscriminatorMultiScales_forward K M bands audio s) =
       bindE (outcome (DiscriminatorEBEN_forward K D1 bands s)) (\<lambda>o1.
       bindE (outcome (DiscriminatorEBEN_forward K D2 bands s)) (\<lambda>o2.
       bindE (outcome (DiscriminatorEBEN_forward K D3 bands s)) (\<lambda>o3.
       bindE (outcome (DiscriminatorMelGAN_forward K G audio s)) (\<lambda>o4.
       Inr [o1, o2, o3, o4])))) \<and>
     (\<forall>EE s'. DiscriminatorMultiScales_forward K M bands audio s = Inr (EE, s') \<longrightarrow>
        length EE = 4 \<and> map (\<lambda>E. E ! 0) EE = [bands, bands, bands, audio] \<and>
        map (\<lambda>E. deref s' E ! 0) EE = [s ! bands, s ! bands, s ! bands, s ! audio])"
proof -
  from assms(1) obtain D1 D2 D3 G where D:
    "DiscriminatorEBEN_init (wb 1) 1 Q = Inr D1"
    "DiscriminatorEBEN_init (wb 2) 2 Q = Inr D2"
    "DiscriminatorEBEN_init (wb 3) 3 Q = Inr D3"
    "DiscriminatorMelGAN_init wm = Inr G"
    and M: "pqmf_discriminators M = [D1, D2, D3]" "melgan_discriminator M = G"
    by (rule DiscriminatorMultiScales_init_Inr)
  have dil: "map DiscriminatorEBEN.dilation (pqmf_discriminators M) = [1, 2, 3]"
    using M(1) DiscriminatorEBEN_init_Inr(3) [OF D(1)] DiscriminatorEBEN_init_Inr(3) [OF D(2)]
      DiscriminatorEBEN_init_Inr(3) [OF D(3)]
    by simp
  have r: "\<forall>EE s'. DiscriminatorMultiScales_forward K M bands audio s = Inr (EE, s') \<longrightarrow>
        length EE = 4 \<and> map (\<lambda>E. E ! 0) EE = [bands, bands, bands, audio] \<and>
        map (\<lambda>E. deref s' E ! 0) EE = [s ! bands, s ! bands, s ! bands, s ! audio]"
    using MultiScales_forward_refs(1,3,4) [OF assms] by blast
  note o = MultiScales_outcomes [OF D M assms(2,3), of K]
  show ?thesis
    by (rule exI [of _ D1], rule exI [of _ D2], rule exI [of _ D3], rule exI [of _ G])
      (intro conjI D M dil r o)
qed

theorem ensemble_evaluates_four_witness:
  "\<exists>EE s'. DiscriminatorMultiScales_forward shape_only
        (projr (DiscriminatorMultiScales_init (\<lambda>d k. ()) (\<lambda>k. ()) 4)) 0 1
        [signal 2 4 1024, signal 2 1 4096] = Inr (EE, s') \<and>
      length EE = 4 \<and> map (\<lambda>E. E ! 0) EE = [0, 0, 0, 1] \<and>
      map DiscriminatorEBEN.dilation (pqmf_discriminators
        (projr (DiscriminatorMultiScales_init (\<lambda>d k. ()) (\<lambda>k. ()) 4))) = [1, 2, 3]"
proof -
  let ?s = "[signal 2 4 1024, signal 2 1 4096]"
  have a: "(0::nat) < length ?s" "(1::nat) < length ?s" by simp_all
  note t = ensemble_evaluates_four_in_order [where K = shape_only and Q = 4
      and bands = 0 and audio = 1 and wb = "\<lambda>d k. ()" and wm = "\<lambda>k. ()"
      and s = ?s, OF init_M4 a]
  obtain EE s3 where r3: "DiscriminatorMultiScales_forward shape_only
        (projr (DiscriminatorMultiScales_init (\<lambda>d k. ()) (\<lambda>k. ()) 4)) 0 1 ?s = Inr (EE, s3)"
    using MultiScales_returns_iff [OF init_M4 [of "\<lambda>d k. ()" "\<lambda>k. ()"] a, where K = shape_only]
    by (auto simp: signal_def)
  from t r3 show ?thesis by auto
qed

text \<open>
  C8. A call of the ensemble has no hidden state. What it returns (the tensors, or the
  error) depends only on the weights and on the two tensors the references hold: a call
  in any other store with the same two tensors has the same outcome. In particular a
  second call, made in the store the first call left, returns again, and the tensors of
  both calls, read after the second call, are the same. The arithmetic of a layer is a
  function of its arguments in this model.
\<close>

theorem evaluate_is_deterministic:
  assumes "DiscriminatorMultiScales_init wb wm Q = Inr M"
    and "bands < length s" "audio < length s"
  shows
   "(\<forall>t bands' audio'. bands' < length t \<and> audio' < length t \<and>
        t ! bands' = s ! bands \<and> t ! audio' = s ! audio \<longrightarrow>
        outcomes (DiscriminatorMultiScales_forward K M bands' audio' t) =
        outcomes (DiscriminatorMultiScales_forward K M bands audio s)) \<and>
    (\<forall>EE s'. DiscriminatorMultiScales_forward K M bands audio s = Inr (EE, s') \<longrightarrow>
       (\<exists>EE2 s2. DiscriminatorMultiScales_forward K M bands audio s' = Inr (EE2, s2) \<and>
          map (deref s2) EE2 = map (deref s') EE \<and>
          map (deref s2) EE = map (deref s') EE))"
proof (intro conjI allI impI)
  from assms(1) obtain D1 D2 D3 G where D:
    "DiscriminatorEBEN_init (wb 1) 1 Q = Inr D1"
    "DiscriminatorEBEN_init (wb 2) 2 Q = Inr D2"
    "DiscriminatorEBEN_init (wb 3) 3 Q = Inr D3"
    "DiscriminatorMelGAN_init wm = Inr G"
    and M: "pqmf_discriminators M = [D1, D2, D3]" "melgan_discriminator M = G"
    by (rule DiscriminatorMultiScales_init_Inr)
  have cong: "outcomes (DiscriminatorMultiScales_forward K M b' a' t) =
        outcomes (DiscriminatorMultiScales_forward K M bands audio s)"
    if "b' < length t" "a' < length t" "t ! b' = s ! bands" "t ! a' = s ! audio"
    for t :: "'b tensor list" and b' a'
    unfolding MultiScales_outcomes [OF D M that(1,2)] MultiScales_outcomes [OF D M assms(2,3)]
      EBEN_forward_outcome_cong [OF D(1) that(1) assms(2) that(3)]
      EBEN_forward_outcome_cong [OF D(2) that(1) assms(2) that(3)]
      EBEN_forward_outcome_cong [OF D(3) that(1) assms(2) that(3)]
      MelGAN_forward_outcome_cong [OF D(4) that(2) assms(3) that(4)]
    by (rule refl)
  {
    fix t :: "'b tensor list" and bands' audio'
    assume "bands' < length t \<and> audio' < length t \<and>
        t ! bands' = s ! bands \<and> t ! audio' = s ! audio"
    then show "outcomes (DiscriminatorMultiScales_forward K M bands' audio' t) =
        outcomes (DiscriminatorMultiScales_forward K M bands audio s)"
      using cong by blast
  }
  {
    fix EE s' assume R: "DiscriminatorMultiScales_forward K M bands audio s = Inr (EE, s')"
    note f = MultiScales_forward_refs [OF assms R]
    have x': "bands < length s'" "audio < length s'" using assms(2,3) f(5) by simp_all
    have "outcomes (DiscriminatorMultiScales_forward K M bands audio s') =
          outcomes (DiscriminatorMultiScales_forward K M bands audio s)"
      by (rule cong [OF x' f(6) [OF assms(2)] f(6) [OF assms(3)]])
    with R have o2: "outcomes (DiscriminatorMultiScales_forward K M bands audio s') =
          Inr (map (deref s') EE)" by simp
    then obtain EE2 s2 where R2: "DiscriminatorMultiScales_forward K M bands audio s' = Inr (EE2, s2)"
      using outcomes_Inr_iff [of "DiscriminatorMultiScales_forward K M bands audio s'"] by auto
    note f2 = MultiScales_forward_refs [OF assms(1) x' R2]
    have "map (deref s2) EE = map (deref s') EE"
    proof (rule map_cong [OF refl])
      fix E assume "E \<in> set EE"
      with f(2) have "list_all (\<lambda>a. a < length s') E" by (simp add: list_all_iff)
      then show "deref s2 E = deref s' E" by (rule deref_later [OF _ f2(6)])
    qed
    with o2 R2
    show "\<exists>EE2 s2. DiscriminatorMultiScales_forward K M bands audio s' = Inr (EE2, s2) \<and>
          map (deref s2) EE2 = map (deref s') EE \<and>
          map (deref s2) EE = map (deref s') EE"
      by simp
  }
qed

theorem evaluate_is_deterministic_witness:
  "\<exists>EE s' EE2 s2.
     DiscriminatorMultiScales_forward shape_only
        (projr (DiscriminatorMultiScales_init (\<lambda>d k. ()) (\<lambda>k. ()) 4)) 0 1
        [signal 2 4 1024, signal 2 1 4096] = Inr (EE, s') \<and>
     DiscriminatorMultiScales_forward shape_only
        (projr (DiscriminatorMultiScales_init (\<lambda>d k. ()) (\<lambda>k. ()) 4)) 0 1 s' = Inr (EE2, s2) \<and>
     map (deref s2) EE2 = map (deref s2) EE"
proof -
  let ?s = "[signal 2 4 1024, signal 2 1 4096]"
  have a: "(0::nat) < length ?s" "(1::nat) < length ?s" by simp_all
  note t = evaluate_is_deterministic [where K = shape_only and Q = 4
      and bands = 0 and audio = 1 and wb = "\<lambda>d k. ()" and wm = "\<lambda>k. ()"
      and s = ?s, OF init_M4 a]
  obtain EE s3 where r3: "DiscriminatorMultiScales_forward shape_only
        (projr (DiscriminatorMultiScales_init (\<lambda>d k. ()) (\<lambda>k. ()) 4)) 0 1 ?s = Inr (EE, s3)"
    using MultiScales_returns_iff [OF init_M4 [of "\<lambda>d k. ()" "\<lambda>k. ()"] a, where K = shape_only]
    by (auto simp: signal_def)
  from t r3 show ?thesis by (metis (no_types, lifting))
qed

text \<open>
  C9. The first block of the band discriminator pads its input by reflection (1 on each
  side) and then convolves with kernel 3, stride 1, padding 1 and the dilation \<open>dila\<close>:
  both paddings are applied. On an input of temporal length \<open>L\<close> it returns exactly when
  the input has \<open>Q\<close> channels, \<open>L \<ge> 2\<close> (the reflection padding must be shorter than the
  input) and the dilated kernel fits, \<open>2 * dila < L + 4\<close>; then its output has temporal
  length \<open>L + 4 - 2 * dila\<close>. This holds for every dilation \<open>dila \<ge> 1\<close>, so for 1, 2 and 3.
  The output is element 1 of the sequence the band discriminator returns; with dilation 1
  it is 2 longer than the input.
\<close>

theorem first_block_output_length:
  assumes "DiscriminatorEBEN_init w dila Q = Inr D" "bands < length s"
  shows
   "((\<exists>y s'. module_forward K (DiscriminatorEBEN.discriminator D ! 0) bands s = Inr (y, s')) =
       (chans (s ! bands) = Q \<and> 1 \<le> dila \<and> 2 \<le> time (s ! bands) \<and>
        2 * dila < time (s ! bands) + 4)) \<and>
    (\<forall>y s'. module_forward K (DiscriminatorEBEN.discriminator D ! 0) bands s = Inr (y, s') \<longrightarrow>
       time (s' ! y) = time (s ! bands) + 4 - 2 * dila \<and> 2 * dila < time (s ! bands) + 4) \<and>
    (\<forall>E s'. DiscriminatorEBEN_forward K D bands s = Inr (E, s') \<longrightarrow>
       time (s' ! (E ! 1)) = time (s ! bands) + 4 - 2 * dila \<and> 2 * dila < time (s ! bands) + 4 \<and>
       (dila = 1 \<longrightarrow> time (s' ! (E ! 1)) = time (s ! bands) + 2))"
proof (intro conjI allI impI)
  note b = EBEN_first_block [OF assms(1)]
  note m = module_forward_shape [OF b(1) assms(2), of K]
  show "(\<exists>y s'. module_forward K (DiscriminatorEBEN.discriminator D ! 0) bands s = Inr (y, s')) =
       (chans (s ! bands) = Q \<and> 1 \<le> dila \<and> 2 \<le> time (s ! bands) \<and>
        2 * dila < time (s ! bands) + 4)"
    unfolding m(1) shape_def b(2) by simp
  {
    fix y s' assume "module_forward K (DiscriminatorEBEN.discriminator D ! 0) bands s = Inr (y, s')"
    from m(2) [OF this, unfolded shape_def b(2)]
    show "time (s' ! y) = time (s ! bands) + 4 - 2 * dila" "2 * dila < time (s ! bands) + 4"
      by simp_all
  }
  {
    fix E s' assume R: "DiscriminatorEBEN_forward K D bands s = Inr (E, s')"
    note sh = EBEN_forward_shapes [OF assms(1) R shape_triple]
    note fr = EBEN_modules_fresh [OF assms(1)]
    note r = forward_modules_result [OF fr(1,2) R [unfolded DiscriminatorEBEN_forward_def]]
    from r(5) fr(3) have len: "length E = 9" by simp
    from arg_cong [OF sh(1), of "\<lambda>l. l ! 1"] len
    have "shape (s' ! (E ! 1)) = (batch (s ! bands), 80, time (s ! bands) + 4 - 2 * dila)"
      by (simp add: deref_def)
    then show t: "time (s' ! (E ! 1)) = time (s ! bands) + 4 - 2 * dila"
      by (simp add: shape_def)
    from sh(3-5) show "2 * dila < time (s ! bands) + 4" by arith
    { assume "dila = 1" with t show "time (s' ! (E ! 1)) = time (s ! bands) + 2" by simp }
  }
qed

theorem first_block_output_length_witness:
  "(\<exists>y s'. module_forward shape_only
       (DiscriminatorEBEN.discriminator (projr (DiscriminatorEBEN_init (\<lambda>k. ()) 3 4)) ! 0) 0
       [signal 2 4 1024] = Inr (y, s') \<and> time (s' ! y) = 1022) \<and>
   (\<exists>E s'. DiscriminatorEBEN_forward shape_only (projr (DiscriminatorEBEN_init (\<lambda>k. ()) 1 4)) 0
       [signal 2 4 1024] = Inr (E, s') \<and> time (s' ! (E ! 1)) = 1026)"
proof -
  let ?s = "[signal 2 4 1024]"
  have a: "(0::nat) < length ?s" by simp
  note t3 = first_block_output_length [where K = shape_only and Q = 4
      and w = "\<lambda>k. ()" and dila = 3 and bands = 0 and s = ?s, OF init_4 a]
  note t1 = first_block_output_length [where K = shape_only and Q = 4
      and w = "\<lambda>k. ()" and dila = 1 and bands = 0 and s = ?s, OF init_4 a]
  from t3 have "\<exists>y s'. module_forward shape_only
       (DiscriminatorEBEN.discriminator (projr (DiscriminatorEBEN_init (\<lambda>k. ()) 3 4)) ! 0) 0
       ?s = Inr (y, s')"
    by (simp add: signal_def)
  then obtain y s' where r3: "module_forward shape_only
       (DiscriminatorEBEN.discriminator (projr (DiscriminatorEBEN_init (\<lambda>k. ()) 3 4)) ! 0) 0
       ?s = Inr (y, s')" by blast
  with t3 have "time (s' ! y) = 1022" by (simp add: signal_def)
  with r3 have p3: "\<exists>y s'. module_forward shape_only
       (DiscriminatorEBEN.discriminator (projr (DiscriminatorEBEN_init (\<lambda>k. ()) 3 4)) ! 0) 0
       ?s = Inr (y, s') \<and> time (s' ! y) = 1022" by blast
  obtain E1 s1 where r1: "DiscriminatorEBEN_forward shape_only
      (projr (DiscriminatorEBEN_init (\<lambda>k. ()) 1 4)) 0 ?s = Inr (E1, s1)"
    using EBEN_returns_iff [OF init_4 [of "\<lambda>k. ()" 1] a, where K = shape_only]
    by (auto simp: signal_def)
  with t1 have "time (s1 ! (E1 ! 1)) = 1026" by (simp add: signal_def)
  with r1 p3 show ?thesis by blast
qed

text \<open>
  C3, as the specification states it, fails for the band discriminator: on bands of
  temporal length 1024 (4 bands, batch 2) the discriminator of dilation 1 ends in a
  tensor of temporal length 33, and the ceiling of 1024 / 32 is 32.
\<close>

theorem band_final_length_is_not_ceil_32:
  "final_time (outcome (DiscriminatorEBEN_forward shape_only
      (projr (DiscriminatorEBEN_init unit_weights 1 4)) 0 [signal 2 4 1024])) = Inr 33 \<and>
   final_time (outcome (DiscriminatorEBEN_forward shape_only
      (projr (DiscriminatorEBEN_init unit_weights 1 4)) 0 [signal 2 4 1024])) \<noteq>
     Inr (nat \<lceil>(1024 :: real) / 32\<rceil>)"
proof -
  have a: "(0::nat) < length [signal 2 4 1024]" by simp
  obtain E s' where R: "DiscriminatorEBEN_forward shape_only
      (projr (DiscriminatorEBEN_init unit_weights 1 4)) 0 [signal 2 4 1024] = Inr (E, s')"
    using EBEN_returns_iff [OF init_4u [of 1] a, where K = shape_only]
    by (auto simp: signal_def)
  from EBEN_final_time [OF init_4u R] R show ?thesis
    by (simp add: final_time_def signal_def)
qed

text \<open>
  C3, amended. The band discriminator of dilation \<open>dila\<close> returns exactly on the inputs
  with \<open>Q\<close> channels and a temporal length \<open>L\<close> with \<open>2 \<le> L\<close> and
  \<open>316 * dila \<le> L + 317\<close>, and its last tensor then has temporal length
  \<open>(L + 221 - 188 * dila) div 32 + 4 - 4 * dila\<close> (no subtraction truncates). For the
  default dilation 1 this is the ceiling of \<open>(L + 2) / 32\<close>: the first block lengthens the
  signal by 2 before the five blocks of stride 2. The full-band discriminator returns
  exactly on the inputs with one channel and \<open>8 \<le> L\<close>, and its last tensor has temporal
  length the ceiling of \<open>L / 256\<close>.
\<close>

theorem final_temporal_lengths:
  assumes "DiscriminatorEBEN_init w dila Q = Inr D" "DiscriminatorMelGAN_init w' = Inr G"
    and "bands < length s" "audio < length s"
  shows
   "((\<exists>E s'. DiscriminatorEBEN_forward K D bands s = Inr (E, s')) =
       (chans (s ! bands) = Q \<and> 1 \<le> dila \<and> 2 \<le> time (s ! bands) \<and>
        316 * dila \<le> time (s ! bands) + 317)) \<and>
    (\<forall>E s'. DiscriminatorEBEN_forward K D bands s = Inr (E, s') \<longrightarrow>
       time (last (deref s' E)) = (time (s ! bands) + 221 - 188 * dila) div 32 + 4 - 4 * dila \<and>
       188 * dila \<le> time (s ! bands) + 221 \<and>
       4 * dila \<le> (time (s ! bands) + 221 - 188 * dila) div 32 + 3 \<and>
       (dila = 1 \<longrightarrow> int (time (last (deref s' E))) = \<lceil>(real (time (s ! bands)) + 2) / 32\<rceil>)) \<and>
    ((\<exists>E s'. DiscriminatorMelGAN_forward K G audio s = Inr (E, s')) =
       (chans (s ! audio) = 1 \<and> 8 \<le> time (s ! audio))) \<and>
    (\<forall>E s'. DiscriminatorMelGAN_forward K G audio s = Inr (E, s') \<longrightarrow>
       int (time (last (deref s' E))) = \<lceil>real (time (s ! audio)) / 256\<rceil>)"
proof (intro conjI allI impI)
  show "(\<exists>E s'. DiscriminatorEBEN_forward K D bands s = Inr (E, s')) =
       (chans (s ! bands) = Q \<and> 1 \<le> dila \<and> 2 \<le> time (s ! bands) \<and>
        316 * dila \<le> time (s ! bands) + 317)"
    by (rule EBEN_returns_iff [OF assms(1,3)])
  show "(\<exists>E s'. DiscriminatorMelGAN_forward K G audio s = Inr (E, s')) =
       (chans (s ! audio) = 1 \<and> 8 \<le> time (s ! audio))"
    by (rule MelGAN_returns_iff [OF assms(2,4)])
  {
    fix E s' assume R: "DiscriminatorEBEN_forward K D bands s = Inr (E, s')"
    note v = EBEN_forward_shapes(3-5) [OF assms(1) R shape_triple]
    show t: "time (last (deref s' E)) =
        (time (s ! bands) + 221 - 188 * dila) div 32 + 4 - 4 * dila"
      by (rule EBEN_final_time [OF assms(1) R])
    from v show "188 * dila \<le> time (s ! bands) + 221" by arith
    from v show "4 * dila \<le> (time (s ! bands) + 221 - 188 * dila) div 32 + 3" by arith
    {
      assume "dila = 1"
      with t have "time (last (deref s' E)) = (time (s ! bands) + 33) div 32" by simp
      then show "int (time (last (deref s' E))) = \<lceil>(real (time (s ! bands)) + 2) / 32\<rceil>"
        by (simp add: ceiling_32)
    }
  }
  {
    fix E s' assume R: "DiscriminatorMelGAN_forward K G audio s = Inr (E, s')"
    from MelGAN_final_time [OF assms(2) R]
    show "int (time (last (deref s' E))) = \<lceil>real (time (s ! audio)) / 256\<rceil>"
      by (simp add: ceiling_256)
  }
qed

theorem final_temporal_lengths_witness:
  "(\<exists>E s'. DiscriminatorEBEN_forward shape_only (projr (DiscriminatorEBEN_init unit_weights 2 4)) 0
       [signal 2 4 1024, signal 2 1 4096] = Inr (E, s') \<and> time (last (deref s' E)) = 23) \<and>
   (\<exists>E s'. DiscriminatorEBEN_forward shape_only (projr (DiscriminatorEBEN_init unit_weights 1 4)) 0
       [signal 2 4 1024, signal 2 1 4096] = Inr (E, s') \<and>
       int (time (last (deref s' E))) = \<lceil>(1024 + 2) / (32 :: real)\<rceil>) \<and>
   (\<exists>E s'. DiscriminatorMelGAN_forward shape_only (projr (DiscriminatorMelGAN_init unit_weights)) 1
       [signal 2 4 1024, signal 2 1 4096] = Inr (E, s') \<and>
       int (time (last (deref s' E))) = \<lceil>4096 / (256 :: real)\<rceil>)"
proof -
  let ?s = "[signal 2 4 1024, signal 2 1 4096]"
  have a: "(0::nat) < length ?s" "(1::nat) < length ?s" by simp_all
  note t2 = final_temporal_lengths [where K = shape_only and Q = 4
      and w = unit_weights and w' = unit_weights and dila = 2 and bands = 0 and audio = 1
      and s = ?s, OF init_4 init_melgan a]
  note t1 = final_temporal_lengths [where K = shape_only and Q = 4
      and w = unit_weights and w' = unit_weights and dila = 1 and bands = 0 and audio = 1
      and s = ?s, OF init_4 init_melgan a]
  from t2 obtain E2 s2 where r2: "DiscriminatorEBEN_forward shape_only
      (projr (DiscriminatorEBEN_init unit_weights 2 4)) 0 ?s = Inr (E2, s2)"
    by (auto simp: signal_def)
  with t2 have p2: "time (last (deref s2 E2)) = 23" by (simp add: signal_def)
  from t1 obtain E1 s1 where r1: "DiscriminatorEBEN_forward shape_only
      (projr (DiscriminatorEBEN_init unit_weights 1 4)) 0 ?s = Inr (E1, s1)"
    by (auto simp: signal_def)
  with t1 have p1: "int (time (last (deref s1 E1))) = \<lceil>(1024 + 2) / (32 :: real)\<rceil>"
    by (simp add: signal_def)
  from t1 obtain E3 s3 where r3: "DiscriminatorMelGAN_forward shape_only
      (projr (DiscriminatorMelGAN_init unit_weights)) 1 ?s = Inr (E3, s3)"
    by (auto simp: signal_def)
  with t1 have p3: "int (time (last (deref s3 E3))) = \<lceil>4096 / (256 :: real)\<rceil>"
    by (simp add: signal_def)
  from r1 r2 r3 p1 p2 p3 show ?thesis by blast
qed

text \<open>
  C1, as the specification states it, fails: on the same bands (batch 2, 4 bands,
  temporal length 1024) the band discriminators of dilation 1 and 2 return tensors of
  different temporal lengths from element 1 on.
\<close>

theorem dilation_changes_shapes:
  "shapes (outcome (DiscriminatorEBEN_forward shape_only
      (projr (DiscriminatorEBEN_init unit_weights 1 4)) 0 [signal 2 4 1024])) =
     Inr [(2, 4, 1024), (2, 80, 1026), (2, 160, 513), (2, 320, 257), (2, 480, 129),
          (2, 640, 65), (2, 960, 33), (2, 960, 33), (2, 1, 33)] \<and>
   shapes (outcome (DiscriminatorEBEN_forward shape_only
      (projr (DiscriminatorEBEN_init unit_weights 2 4)) 0 [signal 2 4 1024])) =
     Inr [(2, 4, 1024), (2, 80, 1024), (2, 160, 509), (2, 320, 252), (2, 480, 123),
          (2, 640, 59), (2, 960, 27), (2, 960, 23), (2, 1, 23)] \<and>
   shapes (outcome (DiscriminatorEBEN_forward shape_only
      (projr (DiscriminatorEBEN_init unit_weights 1 4)) 0 [signal 2 4 1024])) \<noteq>
   shapes (outcome (DiscriminatorEBEN_forward shape_only
      (projr (DiscriminatorEBEN_init unit_weights 2 4)) 0 [signal 2 4 1024]))"
proof -
  have "shapes (outcome (DiscriminatorEBEN_forward shape_only
      (projr (DiscriminatorEBEN_init unit_weights 1 4)) 0 [signal 2 4 1024])) =
     Inr [(2, 4, 1024), (2, 80, 1026), (2, 160, 513), (2, 320, 257), (2, 480, 129),
          (2, 640, 65), (2, 960, 33), (2, 960, 33), (2, 1, 33)]"
    using EBEN_shapes_1024 [of 1] by simp
  moreover have "shapes (outcome (DiscriminatorEBEN_forward shape_only
      (projr (DiscriminatorEBEN_init unit_weights 2 4)) 0 [signal 2 4 1024])) =
     Inr [(2, 4, 1024), (2, 80, 1024), (2, 160, 509), (2, 320, 252), (2, 480, 123),
          (2, 640, 59), (2, 960, 27), (2, 960, 23), (2, 1, 23)]"
    using EBEN_shapes_1024 [of 2] by simp
  ultimately show ?thesis by simp
qed

text \<open>
  C1, amended. Two band discriminators that differ only in their dilation, evaluated on
  the same input, return sequences of the same number of tensors whose corresponding
  tensors have the same batch size and the same number of channels, and both start with
  the input. Their temporal lengths differ: all shapes agree only if the dilations are
  equal (element 1 has temporal length \<open>L + 4 - 2 * dila\<close>).
\<close>

theorem dilation_changes_only_temporal_lengths:
  assumes "DiscriminatorEBEN_init w da Q = Inr D1" "DiscriminatorEBEN_init w db Q = Inr D2"
    and "bands < length s"
  shows "\<forall>E1 s1 E2 s2.
     DiscriminatorEBEN_forward K D1 bands s = Inr (E1, s1) \<and>
     DiscriminatorEBEN_forward K D2 bands s = Inr (E2, s2) \<longrightarrow>
       length E1 = length E2 \<and>
       map batch (deref s1 E1) = map batch (deref s2 E2) \<and>
       map chans (deref s1 E1) = map chans (deref s2 E2) \<and>
       deref s1 E1 ! 0 = s ! bands \<and> deref s2 E2 ! 0 = s ! bands \<and>
       (map shape (deref s1 E1) = map shape (deref s2 E2)) = (da = db)"
proof (intro allI impI)
  fix E1 s1 E2 s2
  assume "DiscriminatorEBEN_forward K D1 bands s = Inr (E1, s1) \<and>
     DiscriminatorEBEN_forward K D2 bands s = Inr (E2, s2)"
  then have R: "DiscriminatorEBEN_forward K D1 bands s = Inr (E1, s1)"
    "DiscriminatorEBEN_forward K D2 bands s = Inr (E2, s2)" by simp_all
  note sh1 = EBEN_forward_shapes [OF assms(1) R(1) shape_triple]
  note sh2 = EBEN_forward_shapes [OF assms(2) R(2) shape_triple]
  note r1 = forward_modules_result [OF EBEN_modules_fresh(1,2) [OF assms(1)]
      R(1) [unfolded DiscriminatorEBEN_forward_def]]
  note r2 = forward_modules_result [OF EBEN_modules_fresh(1,2) [OF assms(2)]
      R(2) [unfolded DiscriminatorEBEN_forward_def]]
  have len: "length E1 = length E2"
    using r1(5) r2(5) EBEN_modules_fresh(3) [OF assms(1)] EBEN_modules_fresh(3) [OF assms(2)]
    by simp
  have b: "map batch (deref s1 E1) = map batch (deref s2 E2)"
    unfolding map_shape_parts sh1(1) sh2(1) by simp
  have c: "map chans (deref s1 E1) = map chans (deref s2 E2)"
    unfolding map_shape_parts sh1(1) sh2(1) by simp
  have e: "(map shape (deref s1 E1) = map shape (deref s2 E2)) = (da = db)"
  proof
    assume "map shape (deref s1 E1) = map shape (deref s2 E2)"
    then have "time (s ! bands) + 4 - 2 * da = time (s ! bands) + 4 - 2 * db"
      unfolding sh1(1) sh2(1) by simp
    with sh1(3-5) sh2(3-5) show "da = db" by arith
  next
    assume "da = db"
    then show "map shape (deref s1 E1) = map shape (deref s2 E2)"
      unfolding sh1(1) sh2(1) by simp
  qed
  from len b c e r1(4) r2(4)
  show "length E1 = length E2 \<and>
       map batch (deref s1 E1) = map batch (deref s2 E2) \<and>
       map chans (deref s1 E1) = map chans (deref s2 E2) \<and>
       deref s1 E1 ! 0 = s ! bands \<and> deref s2 E2 ! 0 = s ! bands \<and>
       (map shape (deref s1 E1) = map shape (deref s2 E2)) = (da = db)"
    by simp
qed

theorem dilation_changes_only_temporal_lengths_witness:
  "\<exists>E1 s1 E2 s2.
     DiscriminatorEBEN_forward shape_only (projr (DiscriminatorEBEN_init unit_weights 1 4)) 0
       [signal 2 4 1024] = Inr (E1, s1) \<and>
     DiscriminatorEBEN_forward shape_only (projr (DiscriminatorEBEN_init unit_weights 3 4)) 0
       [signal 2 4 1024] = Inr (E2, s2) \<and>
     length E1 = length E2 \<and>
     map batch (deref s1 E1) = map batch (deref s2 E2) \<and>
     map chans (deref s1 E1) = map chans (deref s2 E2) \<and>
     map shape (deref s1 E1) \<noteq> map shape (deref s2 E2)"
proof -
  let ?s = "[signal 2 4 1024]"
  have a: "(0::nat) < length ?s" by simp
  note t = dilation_changes_only_temporal_lengths [where K = shape_only and Q = 4
      and w = unit_weights and da = 1 and db = 3 and bands = 0 and s = ?s, OF init_4 init_4 a]
  obtain E1 s1 where r1: "DiscriminatorEBEN_forward shape_only
      (projr (DiscriminatorEBEN_init unit_weights 1 4)) 0 ?s = Inr (E1, s1)"
    using EBEN_returns_iff [OF init_4u [of 1] a, where K = shape_only]
    by (auto simp: signal_def)
  obtain E2 s2 where r2: "DiscriminatorEBEN_forward shape_only
      (projr (DiscriminatorEBEN_init unit_weights 3 4)) 0 ?s = Inr (E2, s2)"
    using EBEN_returns_iff [OF init_4u [of 3] a, where K = shape_only]
    by (auto simp: signal_def)
  from t r1 r2 have "length E1 = length E2 \<and>
     map batch (deref s1 E1) = map batch (deref s2 E2) \<and>
     map chans (deref s1 E1) = map chans (deref s2 E2) \<and>
     map shape (deref s1 E1) \<noteq> map shape (deref s2 E2)"
    by simp
  with r1 r2 show ?thesis by blast
qed

text \<open>
  C2, as the specification states it, fails: in the scenario (batch 2, 4 bands of
  temporal length 1024, audio of temporal length 4096) the three band sequences end in
  tensors of shapes (2, 1, 33), (2, 1, 23) and (2, 1, 13), none of them (2, 1, 32); the
  full-band sequence does end in (2, 1, 16).
\<close>

theorem scenario_final_shapes_are_not_32:
  "final_shapes (outcomes (DiscriminatorMultiScales_forward shape_only
      (projr (DiscriminatorMultiScales_init unit_band_weights unit_weights 4)) 0 1
      [signal 2 4 1024, signal 2 1 4096])) =
     Inr [(2, 1, 33), (2, 1, 23), (2, 1, 13), (2, 1, 16)] \<and>
   final_shapes (outcomes (DiscriminatorMultiScales_forward shape_only
      (projr (DiscriminatorMultiScales_init unit_band_weights unit_weights 4)) 0 1
      [signal 2 4 1024, signal 2 1 4096])) \<noteq>
     Inr [(2, 1, 32), (2, 1, 32), (2, 1, 32), (2, 1, 16)]"
proof -
  let ?s = "[signal 2 4 1024, signal 2 1 4096 :: unit tensor]"
  have a: "(0::nat) < length ?s" "(1::nat) < length ?s" by simp_all
  have sh: "shape (?s ! 0) = (2, 4, 1024)" "shape (?s ! 1) = (2, 1, 4096)"
    by (simp_all add: signal_def shape_def)
  note t = MultiScales_all_shapes [OF init_M4u a sh(1) _ sh(2), of shape_only, simplified]
  have "all_shapes r = Inr x \<Longrightarrow> list_all (\<lambda>l. l \<noteq> []) x \<Longrightarrow>
        final_shapes r = Inr (map last x)" for r :: "error + unit tensor list list" and x
    by (cases r) (auto simp: all_shapes_def final_shapes_def last_map list_all_iff)
  from this [OF t] show ?thesis by simp
qed

text \<open>
  C2, amended. In the scenario (batch 2, 4 bands of temporal length 1024, audio of
  temporal length 4096) the ensemble returns a list of 4 sequences. Elements 0 to 2 are
  sequences of 9 tensors each, ending in tensors of shapes (2, 1, 33), (2, 1, 23) and
  (2, 1, 13) for the dilations 1, 2 and 3; element 3 is a sequence of 8 tensors ending in
  a tensor of shape (2, 1, 16). All shapes are listed.
\<close>

theorem scenario_shapes:
  "all_shapes (outcomes (DiscriminatorMultiScales_forward shape_only
      (projr (DiscriminatorMultiScales_init unit_band_weights unit_weights 4)) 0 1
      [signal 2 4 1024, signal 2 1 4096])) =
     Inr [[(2, 4, 1024), (2, 80, 1026), (2, 160, 513), (2, 320, 257), (2, 480, 129),
           (2, 640, 65), (2, 960, 33), (2, 960, 33), (2, 1, 33)],
          [(2, 4, 1024), (2, 80, 1024), (2, 160, 509), (2, 320, 252), (2, 480, 123),
           (2, 640, 59), (2, 960, 27), (2, 960, 23), (2, 1, 23)],
          [(2, 4, 1024), (2, 80, 1022), (2, 160, 505), (2, 320, 247), (2, 480, 118),
           (2, 640, 53), (2, 960, 21), (2, 960, 13), (2, 1, 13)],
          [(2, 1, 4096), (2, 16, 4096), (2, 64, 1024), (2, 256, 256), (2, 1024, 64),
           (2, 1024, 16), (2, 1024, 16), (2, 1, 16)]]"
proof -
  let ?s = "[signal 2 4 1024, signal 2 1 4096 :: unit tensor]"
  have a: "(0::nat) < length ?s" "(1::nat) < length ?s" by simp_all
  have sh: "shape (?s ! 0) = (2, 4, 1024)" "shape (?s ! 1) = (2, 1, 4096)"
    by (simp_all add: signal_def shape_def)
  from MultiScales_all_shapes [OF init_M4u a sh(1) _ sh(2), of shape_only]
  show ?thesis by simp
qed

end
